theory Spec2Isabelle
  imports Complex_Main "HOL-Library.AList"
begin

unbundle bit_operations_syntax

section \<open>Go run-time failures\<close>

text \<open>
  A Go function that panics does not return.  Every function of the model that can
  panic returns a sum: \<open>Inl\<close> carries the panic, \<open>Inr\<close> the value returned.
\<close>

datatype go_panic =
    TypeAssertion    \<comment> \<open>\<open>x.(T)\<close> on a value whose dynamic type is not \<open>T\<close>\<close>
  | NilMapWrite      \<comment> \<open>assignment to an entry of a nil map\<close>
  | NilDereference   \<comment> \<open>field access through a nil pointer\<close>
  | SliceBounds      \<comment> \<open>slice bounds out of range\<close>

definition bindE :: "go_panic + 'a \<Rightarrow> ('a \<Rightarrow> go_panic + 'b) \<Rightarrow> go_panic + 'b" where
  "bindE x f = (case x of Inl e \<Rightarrow> Inl e | Inr v \<Rightarrow> f v)"

section \<open>The mail processor's \<open>trimToLimit\<close>\<close>

text \<open>
  \<open>strings.TrimSpace\<close> belongs to the Go standard library.  \<open>TrimSpace\<close> below removes
  the ASCII white space of the library's fast path (tab, line feed, vertical tab, form
  feed, carriage return, space) from both ends of a byte string; the multi-byte Unicode
  white space the library also removes is not modelled.  \<open>trimToLimit_with\<close> therefore
  takes the trimming function as a parameter, and the theorem about it holds for every
  trimming function that never lengthens its argument.
\<close>

definition asciiSpace :: "char \<Rightarrow> bool" where
  "asciiSpace c = (c \<in> set [CHR 0x09, CHR 0x0A, CHR 0x0B, CHR 0x0C, CHR 0x0D, CHR '' ''])"

definition TrimSpace :: "string \<Rightarrow> string" where
  "TrimSpace s = rev (dropWhile asciiSpace (rev (dropWhile asciiSpace s)))"

text \<open>
  \<^verbatim>\<open>ret := strings.TrimSpace(str); if len(str) > limit { ret = str[:limit] }; return ret\<close>.
  \<open>limit\<close> is a Go \<open>int\<close>; \<open>str[:limit]\<close> with a negative \<open>limit\<close> panics.
\<close>

definition trimToLimit_with :: "(string \<Rightarrow> string) \<Rightarrow> string \<Rightarrow> int \<Rightarrow> go_panic + string" where
  "trimToLimit_with trim str limit =
     (let ret = trim str in
      if int (length str) > limit
      then (if limit < 0 then Inl SliceBounds else Inr (take (nat limit) str))
      else Inr ret)"

definition trimToLimit :: "string \<Rightarrow> int \<Rightarrow> go_panic + string" where
  "trimToLimit = trimToLimit_with TrimSpace"

section \<open>Values, rows and storage\<close>

text \<open>
  A Go \<open>interface{}\<close> value as the data layer sees it: \<open>nil\<close>, an \<open>int64\<close>, a
  \<open>float64\<close> (carried as the real number it denotes), a string, a bool, a parsed time,
  or a list of string-keyed maps (the decoded file descriptors of a \<open>cloud_store\<close>
  column).
\<close>

datatype val =
    VNil
  | VInt int
  | VFloat real
  | VStr string
  | VBool bool
  | VTime string
  | VList "(string \<times> val) list list"

text \<open>
  A \<open>map[string]interface{}\<close> is an association list; the order of its entries is the
  order in which \<open>range\<close> visits them, which Go leaves unspecified.  Reading a key that
  is absent gives \<open>nil\<close>, as in Go.
\<close>

type_synonym row = "(string \<times> val) list"

definition row_get :: "row \<Rightarrow> string \<Rightarrow> val" where
  "row_get r k = (case map_of r k of None \<Rightarrow> VNil | Some v \<Rightarrow> v)"

definition row_has :: "row \<Rightarrow> string \<Rightarrow> bool" where
  "row_has r k = (map_of r k \<noteq> None)"

definition row_set :: "row \<Rightarrow> string \<Rightarrow> val \<Rightarrow> row" where
  "row_set r k v = AList.update k v r"

datatype go_error = ErrQuery | ErrNoRows | ErrScan | ErrNoSuchObject | ErrNotSynced | ErrColumns

record ForeignKeyData =
  DataSource :: string
  Namespace :: string
  KeyName :: string

record ColumnInfo =
  ColumnName :: string
  ColumnType :: string
  IsForeignKey :: bool
  ForeignKeyData :: ForeignKeyData

text \<open>
  The table model of the api2go library, by the methods the resource calls on it.
\<close>

record Model =
  GetName :: string
  GetColumnMap :: "string \<rightharpoonup> ColumnInfo"
  HasColumn :: "string \<Rightarrow> bool"
  HasMany :: "string \<Rightarrow> bool"
  GetDefaultPermission :: int

record GroupPermission =
  GroupReferenceId :: string
  ObjectReferenceId :: string
  RelationReferenceId :: string
  gp_Permission :: int

record PermissionInstance =
  UserId :: string
  UserGroupId :: "GroupPermission list"
  Permission :: int

text \<open>
  \<open>DbResource\<close>: the database handle \<open>db\<close> is the set of stored tables, each a list of
  rows with \<open>NULL\<close> as \<open>VNil\<close>; \<open>Cruds\<close> maps a type name to the resource of that type,
  of which only the model is used; \<open>model\<close> and \<open>TableName\<close> are the resource's own;
  \<open>AssetFolderCache\<close> gives the local sync path of a synced column.
\<close>

record DbResource =
  db :: "string \<rightharpoonup> row list"
  Cruds :: "(string \<times> Model) list"
  model :: Model
  TableName :: string
  AssetFolderCache :: "string \<rightharpoonup> (string \<rightharpoonup> string)"

abbreviation USER_ACCOUNT_ID_COLUMN :: string where
  "USER_ACCOUNT_ID_COLUMN \<equiv> ''user_account_id''"

abbreviation USER_ACCOUNT_TABLE_NAME :: string where
  "USER_ACCOUNT_TABLE_NAME \<equiv> ''user_account''"

text \<open>
  \<^verbatim>\<open>SELECT ... FROM t WHERE c = ?\<close> with argument \<open>v\<close>: \<open>None\<close> is the statement's
  failure (no such table), otherwise the stored rows whose column \<open>c\<close> equals \<open>v\<close>, in
  stored order.  \<open>NULL\<close> equals nothing.
\<close>

definition sql_eq :: "val \<Rightarrow> val \<Rightarrow> bool" where
  "sql_eq a b = (a \<noteq> VNil \<and> a = b)"

definition select_where :: "DbResource \<Rightarrow> string \<Rightarrow> string \<Rightarrow> val \<Rightarrow> row list option" where
  "select_where dr t c v =
     (case db dr t of
        None \<Rightarrow> None
      | Some rs \<Rightarrow> Some (filter (\<lambda>r. sql_eq (row_get r c) v) rs))"

text \<open>
  \<open>Scan\<close> into a Go \<open>string\<close>, \<open>int64\<close> or \<open>uint64\<close>.  Text columns are stored as
  \<open>VStr\<close> and integer columns as \<open>VInt\<close>, as the schema declares \<open>reference_id\<close> and
  \<open>id\<close>; \<open>NULL\<close> fails the conversion.  The conversions \<open>database/sql\<close> makes between
  the two kinds (an integer read into a string as its decimal text, a numeric text
  read into an integer) are not modelled: a value of the other kind fails here.
\<close>

definition scanString :: "val \<Rightarrow> string option" where
  "scanString v = (case v of VStr s \<Rightarrow> Some s | _ \<Rightarrow> None)"

definition scanInt64 :: "val \<Rightarrow> int option" where
  "scanInt64 v = (case v of VInt n \<Rightarrow> Some n | _ \<Rightarrow> None)"

definition scanUint64 :: "val \<Rightarrow> int option" where
  "scanUint64 v = (case v of VInt n \<Rightarrow> (if 0 \<le> n then Some n else None) | _ \<Rightarrow> None)"

text \<open>The type assertions \<open>x.(int64)\<close> and \<open>x.(string)\<close> without the comma-ok form.\<close>

definition assert_int64 :: "val \<Rightarrow> go_panic + int" where
  "assert_int64 v = (case v of VInt n \<Rightarrow> Inr n | _ \<Rightarrow> Inl TypeAssertion)"

definition assert_string :: "val \<Rightarrow> go_panic + string" where
  "assert_string v = (case v of VStr s \<Rightarrow> Inr s | _ \<Rightarrow> Inl TypeAssertion)"

section \<open>Reference id translation\<close>

text \<open>
  \<open>GetIdToReferenceId\<close>: \<^verbatim>\<open>SELECT reference_id FROM typeName WHERE id = ?\<close>, the first
  row scanned into a string.  Go returns the pair \<open>(str, err)\<close>; \<open>str\<close> stays empty when
  the scan fails.
\<close>

definition GetIdToReferenceId :: "DbResource \<Rightarrow> string \<Rightarrow> int \<Rightarrow> string \<times> go_error option" where
  "GetIdToReferenceId dr typeName i =
     (case select_where dr typeName ''id'' (VInt i) of
        None \<Rightarrow> ([], Some ErrQuery)
      | Some [] \<Rightarrow> ([], Some ErrNoRows)
      | Some (r # _) \<Rightarrow>
          (case scanString (row_get r ''reference_id'') of
             None \<Rightarrow> ([], Some ErrScan)
           | Some s \<Rightarrow> (s, None)))"

text \<open>
  \<open>GetReferenceIdToId\<close>: \<^verbatim>\<open>SELECT id FROM typeName WHERE reference_id = ?\<close>, the first
  row scanned into an \<open>int64\<close>.
\<close>

definition GetReferenceIdToId :: "DbResource \<Rightarrow> string \<Rightarrow> string \<Rightarrow> int \<times> go_error option" where
  "GetReferenceIdToId dr typeName referenceId =
     (case select_where dr typeName ''reference_id'' (VStr referenceId) of
        None \<Rightarrow> (0, Some ErrQuery)
      | Some [] \<Rightarrow> (0, Some ErrNoRows)
      | Some (r # _) \<Rightarrow>
          (case scanInt64 (row_get r ''id'') of
             None \<Rightarrow> (0, Some ErrScan)
           | Some n \<Rightarrow> (n, None)))"

section \<open>Group memberships and object permissions\<close>

text \<open>
  The join of \<open>GetObjectGroupsByObjectId\<close>:
  \<^verbatim>\<open>FROM usergroup ug JOIN T_T_id_has_usergroup_usergroup_id uug ON uug.usergroup_id = ug.id
  WHERE uug.T_id = ?\<close>, as a nested loop over the two stored tables.
\<close>

definition join_usergroup :: "DbResource \<Rightarrow> string \<Rightarrow> int \<Rightarrow> (row \<times> row) list option" where
  "join_usergroup dr objType objectId =
     (case db dr ''usergroup'' of
        None \<Rightarrow> None
      | Some ugs \<Rightarrow>
          (case db dr (objType @ ''_'' @ objType @ ''_id_has_usergroup_usergroup_id'') of
             None \<Rightarrow> None
           | Some uugs \<Rightarrow>
               Some [(ug, uug). ug \<leftarrow> ugs, uug \<leftarrow> uugs,
                       sql_eq (row_get uug ''usergroup_id'') (row_get ug ''id''),
                       sql_eq (row_get uug (objType @ ''_id'')) (VInt objectId)]))"

text \<open>
  \<open>StructScan\<close> of a result row \<open>(groupreferenceid, relationreferenceid, permission)\<close>
  into a \<open>GroupPermission\<close>: the columns are converted in order and the first failure
  stops the scan, leaving the remaining fields zero.  The caller appends the struct
  either way.
\<close>

definition GroupPermission_zero :: GroupPermission where
  "GroupPermission_zero =
     \<lparr>GroupReferenceId = [], ObjectReferenceId = [], RelationReferenceId = [], gp_Permission = 0\<rparr>"

definition StructScan_GroupPermission :: "val \<Rightarrow> val \<Rightarrow> val \<Rightarrow> GroupPermission" where
  "StructScan_GroupPermission g r p =
     (case scanString g of
        None \<Rightarrow> GroupPermission_zero
      | Some gs \<Rightarrow>
          (case scanString r of
             None \<Rightarrow> GroupPermission_zero\<lparr>GroupReferenceId := gs\<rparr>
           | Some rs \<Rightarrow>
               (case scanInt64 p of
                  None \<Rightarrow> GroupPermission_zero\<lparr>GroupReferenceId := gs, RelationReferenceId := rs\<rparr>
                | Some n \<Rightarrow>
                    GroupPermission_zero\<lparr>GroupReferenceId := gs, RelationReferenceId := rs,
                      gp_Permission := n\<rparr>)))"

definition GetObjectGroupsByObjectId :: "DbResource \<Rightarrow> string \<Rightarrow> int \<Rightarrow> go_panic + GroupPermission list" where
  "GetObjectGroupsByObjectId dr objType objectId =
     (let (refId, err) = GetIdToReferenceId dr objType objectId in
      if objType = ''usergroup'' then
        (if err \<noteq> None then Inr []
         else
           (case map_of (Cruds dr) ''usergroup'' of
              None \<Rightarrow> Inl NilDereference
            | Some m \<Rightarrow>
                Inr [\<lparr>GroupReferenceId = refId, ObjectReferenceId = refId,
                      RelationReferenceId = refId, gp_Permission = GetDefaultPermission m\<rparr>]))
      else
        (case join_usergroup dr objType objectId of
           None \<Rightarrow> Inr []
         | Some res \<Rightarrow>
             Inr (map (\<lambda>(ug, uug).
                    (StructScan_GroupPermission (row_get ug ''reference_id'')
                       (row_get uug ''reference_id'') (row_get uug ''permission''))
                    \<lparr>ObjectReferenceId := refId\<rparr>) res)))"

text \<open>
  \<open>QueryRowx(...).MapScan(m)\<close>: the first matching row as a map with one entry per
  selected column, or the error of the query (\<open>sql.ErrNoRows\<close> when nothing matches).
\<close>

definition QueryRowx_MapScan :: "DbResource \<Rightarrow> string list \<Rightarrow> string \<Rightarrow> string \<Rightarrow> val \<Rightarrow> go_error + row" where
  "QueryRowx_MapScan dr cols t c v =
     (case select_where dr t c v of
        None \<Rightarrow> Inl ErrQuery
      | Some [] \<Rightarrow> Inl ErrNoRows
      | Some (r # _) \<Rightarrow> Inr (map (\<lambda>k. (k, row_get r k)) cols))"

definition PermissionInstance_zero :: PermissionInstance where
  "PermissionInstance_zero = \<lparr>UserId = [], UserGroupId = [], Permission = 0\<rparr>"

text \<open>
  The owner of a scanned permission row: \<open>perm.UserId\<close> is set when the owner column is
  not \<open>nil\<close> and its translation succeeds; the owner column is asserted to be an
  \<open>int64\<close>.
\<close>

definition owner_of :: "DbResource \<Rightarrow> row \<Rightarrow> PermissionInstance \<Rightarrow> go_panic + PermissionInstance" where
  "owner_of dr m perm =
     (if row_get m USER_ACCOUNT_ID_COLUMN \<noteq> VNil then
        bindE (assert_int64 (row_get m USER_ACCOUNT_ID_COLUMN)) (\<lambda>uid.
          (case GetIdToReferenceId dr USER_ACCOUNT_TABLE_NAME uid of
             (user, None) \<Rightarrow> Inr (perm\<lparr>UserId := user\<rparr>)
           | (_, Some _) \<Rightarrow> Inr perm))
      else Inr perm)"

definition GetObjectPermissionByWhereClause ::
    "DbResource \<Rightarrow> string \<Rightarrow> string \<Rightarrow> string \<Rightarrow> go_panic + PermissionInstance" where
  "GetObjectPermissionByWhereClause dr objectType colName colValue =
     (case QueryRowx_MapScan dr [USER_ACCOUNT_ID_COLUMN, ''permission'', ''id''] objectType colName
             (VStr colValue) of
        Inl _ \<Rightarrow> Inr PermissionInstance_zero
      | Inr m \<Rightarrow>
          bindE (owner_of dr m PermissionInstance_zero) (\<lambda>perm.
          bindE (assert_int64 (row_get m ''id'')) (\<lambda>i.
          bindE (GetObjectGroupsByObjectId dr objectType i) (\<lambda>groups.
          bindE (assert_int64 (row_get m ''permission'')) (\<lambda>p.
            Inr (perm\<lparr>UserGroupId := groups, Permission := p\<rparr>))))))"

text \<open>
  \<open>IsUserActionAllowed\<close>.  \<open>PermissionInstance.CanExecute\<close> is not among the sources and
  is a parameter.
\<close>

definition IsUserActionAllowed ::
    "(PermissionInstance \<Rightarrow> string \<Rightarrow> GroupPermission list \<Rightarrow> bool) \<Rightarrow> DbResource \<Rightarrow>
     string \<Rightarrow> GroupPermission list \<Rightarrow> string \<Rightarrow> string \<Rightarrow> go_panic + bool" where
  "IsUserActionAllowed CanExecute dr userReferenceId userGroups typeName actionName =
     bindE (GetObjectPermissionByWhereClause dr ''world'' ''table_name'' typeName) (\<lambda>permission.
     bindE (GetObjectPermissionByWhereClause dr ''action'' ''action_name'' actionName) (\<lambda>actionPermission.
       (let canExecuteOnType = CanExecute permission userReferenceId userGroups;
            canExecuteAction = CanExecute actionPermission userReferenceId userGroups
        in Inr (canExecuteOnType \<and> canExecuteAction))))"

section \<open>\<open>strconv.ParseInt\<close> at base 10 and bit size 64\<close>

text \<open>
  The standard library's parser, as its source reads: an optional sign, then
  \<open>ParseUint\<close>, which walks the bytes, fails with a syntax error (value 0) at the first
  byte that is not a decimal digit, and fails with a range error (value \<open>2^64 - 1\<close>) as
  soon as the number no longer fits 64 bits.  \<open>ParseInt\<close> returns 0 on a syntax error
  and the nearest bound of \<open>int64\<close> on a range error.
\<close>

datatype num_error = ErrSyntax | ErrRange

definition is_digit :: "char \<Rightarrow> bool" where
  "is_digit c = (48 \<le> (of_char c :: int) \<and> (of_char c :: int) \<le> 57)"

definition digit_val :: "char \<Rightarrow> int" where
  "digit_val c = of_char c - 48"

fun ParseUint_loop :: "int \<Rightarrow> string \<Rightarrow> int \<times> num_error option" where
  "ParseUint_loop n [] = (n, None)"
| "ParseUint_loop n (c # cs) =
     (if \<not> is_digit c then (0, Some ErrSyntax)
      else if n \<ge> (2 ^ 64 - 1) div 10 + 1 then (2 ^ 64 - 1, Some ErrRange)
      else if n * 10 + digit_val c > 2 ^ 64 - 1 then (2 ^ 64 - 1, Some ErrRange)
      else ParseUint_loop (n * 10 + digit_val c) cs)"

definition ParseUint :: "string \<Rightarrow> int \<times> num_error option" where
  "ParseUint s = (if s = [] then (0, Some ErrSyntax) else ParseUint_loop 0 s)"

definition ParseInt :: "string \<Rightarrow> int \<times> num_error option" where
  "ParseInt s =
     (if s = [] then (0, Some ErrSyntax)
      else
        (let neg = (hd s = CHR ''-'');
             s1 = (if hd s = CHR ''+'' \<or> hd s = CHR ''-'' then tl s else s);
             (un, err) = ParseUint s1
         in if err = Some ErrSyntax then (0, err)
            else if \<not> neg \<and> un \<ge> 2 ^ 63 then (2 ^ 63 - 1, Some ErrRange)
            else if neg \<and> un > 2 ^ 63 then (- (2 ^ 63), Some ErrRange)
            else (if neg then - un else un, None)))"

section \<open>Rows of a query and relation expansion\<close>

text \<open>
  An \<open>*sqlx.Rows\<close>: whether \<open>Columns()\<close> fails, and what each \<open>rows.Next()\<close> scans
  (\<open>None\<close> when the scan of that row fails).
\<close>

record sqlx_Rows =
  columns_err :: bool
  scans :: "row option list"

definition rows_of :: "row list \<Rightarrow> sqlx_Rows" where
  "rows_of rs = \<lparr>columns_err = False, scans = map Some rs\<rparr>"

fun RowsToMap_loop :: "string \<Rightarrow> row option list \<Rightarrow> row list \<Rightarrow> row list \<times> go_error option" where
  "RowsToMap_loop typeName [] responseArray = (responseArray, None)"
| "RowsToMap_loop typeName (None # rest) responseArray = (responseArray, Some ErrScan)"
| "RowsToMap_loop typeName (Some dbRow # rest) responseArray =
     RowsToMap_loop typeName rest (responseArray @ [row_set dbRow ''__type'' (VStr typeName)])"

definition RowsToMap :: "sqlx_Rows \<Rightarrow> string \<Rightarrow> row list \<times> go_error option" where
  "RowsToMap rows typeName =
     (if columns_err rows then ([], Some ErrColumns)
      else RowsToMap_loop typeName (scans rows) [])"

text \<open>
  What the resolver takes from outside the resource: the two time parsers of the
  column types package, \<open>json.Unmarshal\<close> into a list of maps, \<open>ioutil.ReadFile\<close> and
  the base64 encoding.  Each parser gives \<open>None\<close> for its error.
\<close>

record externals =
  GetTime :: "string \<Rightarrow> string option"
  GetDateTime :: "string \<Rightarrow> string option"
  json_Unmarshal :: "string \<Rightarrow> row list option"
  ReadFile :: "string \<Rightarrow> string option"
  EncodeToString :: "string \<Rightarrow> string"

text \<open>
  \<open>GetFileFromLocalCloudStore\<close>: every descriptor whose file can be read is copied and
  completed with \<open>reference_id\<close> and \<open>contents\<close>; the others are left out.
\<close>

fun hydrate_files :: "externals \<Rightarrow> string \<Rightarrow> row list \<Rightarrow> row list \<Rightarrow> go_panic + row list" where
  "hydrate_files ext path [] resp = Inr resp"
| "hydrate_files ext path (fileItem # rest) resp =
     bindE (assert_string (row_get fileItem ''src'')) (\<lambda>filePath.
       (case ReadFile ext (path @ ''/'' @ filePath) of
          None \<Rightarrow> hydrate_files ext path rest resp
        | Some bytes \<Rightarrow>
            hydrate_files ext path rest
              (resp @ [row_set (row_set fileItem ''reference_id'' (row_get fileItem ''name''))
                         ''contents'' (VStr (EncodeToString ext bytes))])))"

definition GetFileFromLocalCloudStore ::
    "externals \<Rightarrow> DbResource \<Rightarrow> string \<Rightarrow> string \<Rightarrow> row list \<Rightarrow> go_panic + (row list \<times> go_error option)" where
  "GetFileFromLocalCloudStore ext dr tableName columnName filesList =
     (case (case AssetFolderCache dr tableName of None \<Rightarrow> None | Some m \<Rightarrow> m columnName) of
        None \<Rightarrow> Inr ([], Some ErrNotSynced)
      | Some localSyncPath \<Rightarrow>
          bindE (hydrate_files ext localSyncPath filesList []) (\<lambda>resp. Inr (resp, None)))"

text \<open>\<^verbatim>\<open>for _, file := range foreignFilesList { file["src"] = file["name"].(string) }\<close>\<close>

fun set_src :: "row list \<Rightarrow> go_panic + row list" where
  "set_src [] = Inr []"
| "set_src (file # rest) =
     bindE (assert_string (row_get file ''name'')) (\<lambda>n.
     bindE (set_src rest) (\<lambda>rest'. Inr (row_set file ''src'' (VStr n) # rest')))"

text \<open>
  \<open>includedRelationMap\<close> is \<open>nil\<close> (\<open>None\<close>) or a \<open>map[string]bool\<close>; the test is
  \<^verbatim>\<open>includedRelationMap != nil && (includedRelationMap[name] || includedRelationMap["*"])\<close>.
\<close>

definition relation_included :: "(string \<rightharpoonup> bool) option \<Rightarrow> string \<Rightarrow> bool" where
  "relation_included includedRelationMap n =
     (case includedRelationMap of
        None \<Rightarrow> False
      | Some m \<Rightarrow> m n = Some True \<or> m ''*'' = Some True)"

text \<open>The coercion of a \<open>datetime\<close> column: first layout, then the second, else \<open>nil\<close>.\<close>

definition coerce_datetime :: "externals \<Rightarrow> ColumnInfo \<Rightarrow> row \<Rightarrow> string \<Rightarrow> val \<Rightarrow> row" where
  "coerce_datetime ext columnInfo row k v =
     (if v \<noteq> VNil \<and> ColumnType columnInfo = ''datetime'' then
        (case v of
           VStr stringVal \<Rightarrow>
             (case GetTime ext stringVal of
                Some parsedValue \<Rightarrow> row_set row k (VTime parsedValue)
              | None \<Rightarrow>
                  (case GetDateTime ext stringVal of
                     None \<Rightarrow> row_set row k VNil
                   | Some parsedValue \<Rightarrow> row_set row k (VTime parsedValue)))
         | _ \<Rightarrow> row)
      else row)"

text \<open>
  The body of the loop over the columns of one row, for the key \<open>k\<close>; the state is the
  row and its \<open>localInclude\<close>.  \<open>objMap\<close> is the cache of the source, which is created
  empty and never written; its key \<open>fmt.Sprintf("%v-%v", namespace, referenceIdInt)\<close>
  is kept as the pair.  \<open>fetch\<close> stands for \<open>dr.GetIdToObject\<close>, defined below.
\<close>

definition resolve_self ::
    "(string \<Rightarrow> int \<Rightarrow> go_panic + (row option \<times> go_error option)) \<Rightarrow> DbResource \<Rightarrow>
     (string \<rightharpoonup> bool) option \<Rightarrow> (string \<times> int \<rightharpoonup> row) \<Rightarrow> string \<Rightarrow> string \<Rightarrow> val \<Rightarrow>
     row \<times> row list \<Rightarrow> go_panic + (row \<times> row list)" where
  "resolve_self fetch dr includedRelationMap objMap namespace k v st =
     (case st of (row, localInclude) \<Rightarrow>
        bindE (case v of VInt n \<Rightarrow> Inr n
                       | VStr stringIntId \<Rightarrow> Inr (fst (ParseInt stringIntId))
                       | _ \<Rightarrow> Inl TypeAssertion) (\<lambda>referenceIdInt.
          (case objMap (namespace, referenceIdInt) of
             Some objCached \<Rightarrow> Inr (row, localInclude @ [objCached])
           | None \<Rightarrow>
               (case GetIdToReferenceId dr namespace referenceIdInt of
                  (_, Some _) \<Rightarrow> Inr (row, localInclude)
                | (refId, None) \<Rightarrow>
                    (let row' = row_set row k (VStr refId) in
                     if relation_included includedRelationMap namespace then
                       bindE (fetch namespace referenceIdInt) (\<lambda>(obj, err).
                         (case obj of
                            None \<Rightarrow> Inl NilMapWrite
                          | Some found \<Rightarrow>
                              (if err \<noteq> None then Inr (row', localInclude)
                               else Inr (row', localInclude @ [row_set found ''__type'' (VStr namespace)]))))
                     else Inr (row', localInclude))))))"

definition resolve_cloud_store ::
    "externals \<Rightarrow> DbResource \<Rightarrow> (string \<rightharpoonup> bool) option \<Rightarrow> ColumnInfo \<Rightarrow> string \<Rightarrow> val \<Rightarrow>
     row \<times> row list \<Rightarrow> go_panic + (row \<times> row list)" where
  "resolve_cloud_store ext dr includedRelationMap columnInfo k v st =
     (case st of (row, localInclude) \<Rightarrow>
        bindE (assert_string v) (\<lambda>referenceStorageInformation.
          (case json_Unmarshal ext referenceStorageInformation of
             None \<Rightarrow> Inr (row, localInclude)
           | Some decoded \<Rightarrow>
               bindE (set_src decoded) (\<lambda>foreignFilesList.
                 (let row' = row_set row k (VList foreignFilesList) in
                  if relation_included includedRelationMap (ColumnName columnInfo) then
                    bindE (GetFileFromLocalCloudStore ext dr (TableName dr) (ColumnName columnInfo)
                             foreignFilesList) (\<lambda>(resolvedFilesList, err).
                      (let typed = map (\<lambda>file. row_set file ''__type'' (VStr (ColumnType columnInfo)))
                                     resolvedFilesList
                       in Inr (row_set row' k (VList typed), localInclude @ typed)))
                  else Inr (row', localInclude))))))"

definition resolve_column ::
    "(string \<Rightarrow> int \<Rightarrow> go_panic + (row option \<times> go_error option)) \<Rightarrow> externals \<Rightarrow> DbResource \<Rightarrow>
     (string \<rightharpoonup> ColumnInfo) \<Rightarrow> (string \<rightharpoonup> bool) option \<Rightarrow> row \<times> row list \<Rightarrow> string \<Rightarrow>
     go_panic + (row \<times> row list)" where
  "resolve_column fetch ext dr columnMap includedRelationMap st k =
     (case st of (row, localInclude) \<Rightarrow>
        (let v = row_get row k in
         case columnMap k of
           None \<Rightarrow> Inr (row, localInclude)
         | Some columnInfo \<Rightarrow>
             (let row1 = coerce_datetime ext columnInfo row k v in
              if \<not> IsForeignKey columnInfo then Inr (row1, localInclude)
              else if v = VStr [] \<or> v = VNil then Inr (row1, localInclude)
              else if DataSource (ForeignKeyData columnInfo) = ''self'' then
                resolve_self fetch dr includedRelationMap Map.empty
                  (Namespace (ForeignKeyData columnInfo)) k v (row1, localInclude)
              else if DataSource (ForeignKeyData columnInfo) = ''cloud_store'' then
                resolve_cloud_store ext dr includedRelationMap columnInfo k v (row1, localInclude)
              else Inr (row1, localInclude))))"

text \<open>\<^verbatim>\<open>for key, val := range row\<close>: every key of the row once, in the row's order.\<close>

fun resolve_columns ::
    "(string \<Rightarrow> int \<Rightarrow> go_panic + (row option \<times> go_error option)) \<Rightarrow> externals \<Rightarrow> DbResource \<Rightarrow>
     (string \<rightharpoonup> ColumnInfo) \<Rightarrow> (string \<rightharpoonup> bool) option \<Rightarrow> string list \<Rightarrow> row \<times> row list \<Rightarrow>
     go_panic + (row \<times> row list)" where
  "resolve_columns fetch ext dr columnMap includedRelationMap [] st = Inr st"
| "resolve_columns fetch ext dr columnMap includedRelationMap (k # ks) st =
     bindE (resolve_column fetch ext dr columnMap includedRelationMap st k)
       (resolve_columns fetch ext dr columnMap includedRelationMap ks)"

definition resolve_row ::
    "(string \<Rightarrow> int \<Rightarrow> go_panic + (row option \<times> go_error option)) \<Rightarrow> externals \<Rightarrow> DbResource \<Rightarrow>
     (string \<rightharpoonup> ColumnInfo) \<Rightarrow> (string \<rightharpoonup> bool) option \<Rightarrow> row \<Rightarrow> go_panic + (row \<times> row list)" where
  "resolve_row fetch ext dr columnMap includedRelationMap row =
     resolve_columns fetch ext dr columnMap includedRelationMap (remdups (map fst row)) (row, [])"

text \<open>\<^verbatim>\<open>for _, row := range responseArray\<close>, collecting each row and its include list.\<close>

fun resolve_rows ::
    "(string \<Rightarrow> int \<Rightarrow> go_panic + (row option \<times> go_error option)) \<Rightarrow> externals \<Rightarrow> DbResource \<Rightarrow>
     (string \<rightharpoonup> ColumnInfo) \<Rightarrow> (string \<rightharpoonup> bool) option \<Rightarrow> row list \<Rightarrow>
     go_panic + (row \<times> row list) list" where
  "resolve_rows fetch ext dr columnMap includedRelationMap [] = Inr []"
| "resolve_rows fetch ext dr columnMap includedRelationMap (row # rest) =
     bindE (resolve_row fetch ext dr columnMap includedRelationMap row) (\<lambda>r.
     bindE (resolve_rows fetch ext dr columnMap includedRelationMap rest) (\<lambda>rs. Inr (r # rs)))"

text \<open>
  \<open>ResultToArrayOfMap\<close> with the object loader as a parameter.  The result is
  \<open>(responseArray, includes, err)\<close>; a failure of \<open>RowsToMap\<close> returns what was scanned
  so far, no include list and the error.
\<close>

definition ResultToArrayOfMap_with ::
    "(string \<Rightarrow> int \<Rightarrow> go_panic + (row option \<times> go_error option)) \<Rightarrow> externals \<Rightarrow> DbResource \<Rightarrow>
     sqlx_Rows \<Rightarrow> (string \<rightharpoonup> ColumnInfo) \<Rightarrow> (string \<rightharpoonup> bool) option \<Rightarrow>
     go_panic + (row list \<times> row list list \<times> go_error option)" where
  "ResultToArrayOfMap_with fetch ext dr rows columnMap includedRelationMap =
     (case RowsToMap rows (GetName (model dr)) of
        (responseArray, Some err) \<Rightarrow> Inr (responseArray, [], Some err)
      | (responseArray, None) \<Rightarrow>
          bindE (resolve_rows fetch ext dr columnMap includedRelationMap responseArray) (\<lambda>rs.
            Inr (map fst rs, map snd rs, None)))"

text \<open>
  \<open>GetIdToObject\<close> calls \<open>ResultToArrayOfMap\<close> with a \<open>nil\<close> include map, under which the
  object loader is never called; the loader passed here is therefore immaterial.
\<close>

definition GetIdToObject ::
    "externals \<Rightarrow> DbResource \<Rightarrow> string \<Rightarrow> int \<Rightarrow> go_panic + (row option \<times> go_error option)" where
  "GetIdToObject ext dr typeName i =
     (case select_where dr typeName ''id'' (VInt i) of
        None \<Rightarrow> Inr (None, Some ErrQuery)
      | Some rs \<Rightarrow>
          (case map_of (Cruds dr) typeName of
             None \<Rightarrow> Inl NilDereference
           | Some crud \<Rightarrow>
               bindE (ResultToArrayOfMap_with (\<lambda>_ _. Inr (None, None)) ext dr (rows_of rs)
                        (GetColumnMap crud) None) (\<lambda>(m, _, err).
                 if m = [] then Inr (None, err) else Inr (Some (hd m), err))))"

definition ResultToArrayOfMap ::
    "externals \<Rightarrow> DbResource \<Rightarrow> sqlx_Rows \<Rightarrow> (string \<rightharpoonup> ColumnInfo) \<Rightarrow> (string \<rightharpoonup> bool) option \<Rightarrow>
     go_panic + (row list \<times> row list list \<times> go_error option)" where
  "ResultToArrayOfMap ext dr = ResultToArrayOfMap_with (GetIdToObject ext dr) ext dr"

definition GetReferenceIdToObject ::
    "externals \<Rightarrow> DbResource \<Rightarrow> string \<Rightarrow> string \<Rightarrow> go_panic + (row option \<times> go_error option)" where
  "GetReferenceIdToObject ext dr typeName referenceId =
     (case select_where dr typeName ''reference_id'' (VStr referenceId) of
        None \<Rightarrow> Inr (None, Some ErrQuery)
      | Some rs \<Rightarrow>
          (case map_of (Cruds dr) typeName of
             None \<Rightarrow> Inl NilDereference
           | Some crud \<Rightarrow>
               bindE (ResultToArrayOfMap ext dr (rows_of rs) (GetColumnMap crud) None) (\<lambda>(results, _, err).
                 if err \<noteq> None then Inr (None, err)
                 else if results = [] then Inr (None, Some ErrNoSuchObject)
                 else Inr (Some (hd results), err))))"

section \<open>The permission of a row\<close>

text \<open>
  \<open>GetObjectPermissionByReferenceId\<close>.  A failed \<open>MapScan\<close> is only logged and leaves
  \<open>resultObject\<close> empty; without an \<open>int64\<close> id the instance built so far is returned.
\<close>

definition GetObjectPermissionByReferenceId ::
    "DbResource \<Rightarrow> string \<Rightarrow> string \<Rightarrow> go_panic + PermissionInstance" where
  "GetObjectPermissionByReferenceId dr objectType referenceId =
     (let cols = (if objectType = ''usergroup'' then [''permission'', ''id'']
                  else [USER_ACCOUNT_ID_COLUMN, ''permission'', ''id'']);
          resultObject = (case QueryRowx_MapScan dr cols objectType ''reference_id'' (VStr referenceId) of
                            Inl _ \<Rightarrow> []
                          | Inr m \<Rightarrow> m)
      in bindE (owner_of dr resultObject PermissionInstance_zero) (\<lambda>perm.
           (case row_get resultObject ''id'' of
              VInt i \<Rightarrow>
                bindE (GetObjectGroupsByObjectId dr objectType i) (\<lambda>groups.
                bindE (assert_int64 (row_get resultObject ''permission'')) (\<lambda>p.
                  Inr (perm\<lparr>UserGroupId := groups, Permission := p\<rparr>)))
            | _ \<Rightarrow> Inr perm)))"

text \<open>
  \<open>GetObjectUserGroupsByWhere\<close>: the join string of the api2go relation
  \<open>has_many_and_belongs_to_many\<close> from \<open>objType\<close> to \<open>usergroup\<close>,
  \<^verbatim>\<open>FROM T JOIN J ON J.T_id = T.id JOIN usergroup ON J.usergroup_id = usergroup.id WHERE T.col = ?\<close>
  with \<open>J = T_T_id_has_usergroup_usergroup_id\<close>, as a nested loop.  A failed query gives
  the empty list.
\<close>

definition GetObjectUserGroupsByWhere :: "DbResource \<Rightarrow> string \<Rightarrow> string \<Rightarrow> val \<Rightarrow> GroupPermission list" where
  "GetObjectUserGroupsByWhere dr objType colName colvalue =
     (case db dr objType of
        None \<Rightarrow> []
      | Some subjects \<Rightarrow>
          (case db dr (objType @ ''_'' @ objType @ ''_id_has_usergroup_usergroup_id'') of
             None \<Rightarrow> []
           | Some joins \<Rightarrow>
               (case db dr ''usergroup'' of
                  None \<Rightarrow> []
                | Some groups \<Rightarrow>
                    [StructScan_GroupPermission (row_get ug ''reference_id'')
                       (row_get j ''reference_id'') (row_get j ''permission'').
                       sub \<leftarrow> subjects, j \<leftarrow> joins,
                       sql_eq (row_get j (objType @ ''_id'')) (row_get sub ''id''),
                       ug \<leftarrow> groups,
                       sql_eq (row_get j ''usergroup_id'') (row_get ug ''id''),
                       sql_eq (row_get sub colName) colvalue])))"

text \<open>\<open>strings.Index\<close>: the index of the first occurrence, or \<open>-1\<close>.\<close>

fun strings_Index :: "string \<Rightarrow> string \<Rightarrow> int" where
  "strings_Index [] substr = (if substr = [] then 0 else - 1)"
| "strings_Index (c # cs) substr =
     (if take (length substr) (c # cs) = substr then 0
      else (let i = strings_Index cs substr in if i = - 1 then - 1 else i + 1))"

text \<open>
  The conversion \<open>int64(f64)\<close> truncates toward zero.  For a value outside \<open>int64\<close> the
  language leaves the result to the implementation; the value given is that of amd64.
\<close>

definition f64_to_i64 :: "real \<Rightarrow> int" where
  "f64_to_i64 x =
     (let t = (if 0 \<le> x then \<lfloor>x\<rfloor> else \<lceil>x\<rceil>)
      in if - (2 ^ 63) \<le> t \<and> t < 2 ^ 63 then t else - (2 ^ 63))"

text \<open>\<^verbatim>\<open>uid, _ := x.(string)\<close>: the empty string when \<open>x\<close> is not a string.\<close>

definition string_or_empty :: "val \<Rightarrow> string" where
  "string_or_empty v = (case v of VStr s \<Rightarrow> s | _ \<Rightarrow> [])"

text \<open>
  Step 2 of \<open>GetRowPermission\<close>: the owner.  When the row has no owner column the row
  is fetched again by reference id, and the variable \<open>row\<close> is replaced by what the
  fetch returned (a \<open>nil\<close> map on failure, which reads as \<open>nil\<close> everywhere).
\<close>

definition row_owner ::
    "externals \<Rightarrow> DbResource \<Rightarrow> row \<Rightarrow> val \<Rightarrow> string \<Rightarrow> PermissionInstance \<Rightarrow>
     go_panic + (row \<times> PermissionInstance)" where
  "row_owner ext dr row refId rowType perm =
     (if rowType \<noteq> ''usergroup'' then
        (if row_get row USER_ACCOUNT_ID_COLUMN \<noteq> VNil then
           Inr (row, perm\<lparr>UserId := string_or_empty (row_get row USER_ACCOUNT_ID_COLUMN)\<rparr>)
         else
           bindE (assert_string refId) (\<lambda>refStr.
           bindE (GetReferenceIdToObject ext dr rowType refStr) (\<lambda>(obj, _).
             (let row' = (case obj of None \<Rightarrow> [] | Some found \<Rightarrow> found);
                  u = row_get row' USER_ACCOUNT_ID_COLUMN
              in Inr (row', if u \<noteq> VNil then perm\<lparr>UserId := string_or_empty u\<rparr> else perm)))))
      else Inr (row, perm))"

text \<open>Step 3: the groups.\<close>

definition row_groups ::
    "DbResource \<Rightarrow> row \<Rightarrow> val \<Rightarrow> string \<Rightarrow> PermissionInstance \<Rightarrow> go_panic + PermissionInstance" where
  "row_groups dr row refId rowType perm =
     (let loc = strings_Index rowType ''_has_'' in
      bindE (if loc = - 1 then
               (case map_of (Cruds dr) rowType of
                  None \<Rightarrow> Inl NilDereference
                | Some crud \<Rightarrow> Inr (HasMany crud ''usergroup''))
             else Inr False) (\<lambda>hasMany.
        if hasMany then
          bindE (assert_string refId) (\<lambda>refStr.
            Inr (perm\<lparr>UserGroupId := GetObjectUserGroupsByWhere dr rowType ''reference_id'' (VStr refStr)\<rparr>))
        else if rowType = ''usergroup'' then
          (let originalGroupId = row_get row ''reference_id'' in
           bindE (assert_string refId) (\<lambda>refStr.
           bindE (if originalGroupId \<noteq> VNil then assert_string originalGroupId else Inr refStr)
             (\<lambda>originalGroupIdStr.
               (case map_of (Cruds dr) ''usergroup'' of
                  None \<Rightarrow> Inl NilDereference
                | Some ug \<Rightarrow>
                    Inr (perm\<lparr>UserGroupId :=
                           [\<lparr>GroupReferenceId = originalGroupIdStr, ObjectReferenceId = refStr,
                             RelationReferenceId = refStr,
                             gp_Permission = GetDefaultPermission ug\<rparr>]\<rparr>)))))
        else Inr perm))"

text \<open>
  Step 4: the bitmask, from an \<open>int64\<close>, a \<open>float64\<close> or a decimal string; the error
  of \<open>ParseInt\<close> is logged and the value it returned is used.  Without a permission
  column the stored permission of the reference id is loaded.
\<close>

definition row_permission ::
    "DbResource \<Rightarrow> row \<Rightarrow> val \<Rightarrow> string \<Rightarrow> PermissionInstance \<Rightarrow> go_panic + PermissionInstance" where
  "row_permission dr row refId rowType perm =
     (let rowPermission = row_get row ''permission'' in
      if rowPermission \<noteq> VNil then
        bindE (case rowPermission of
                 VInt i64 \<Rightarrow> Inr i64
               | VFloat f64 \<Rightarrow> Inr (f64_to_i64 f64)
               | VStr s \<Rightarrow> Inr (fst (ParseInt s))
               | _ \<Rightarrow> Inl TypeAssertion) (\<lambda>i64. Inr (perm\<lparr>Permission := i64\<rparr>))
      else
        bindE (assert_string refId) (\<lambda>refStr.
        bindE (GetObjectPermissionByReferenceId dr rowType refStr) (\<lambda>pe.
          Inr (perm\<lparr>Permission := Permission pe\<rparr>))))"

definition GetRowPermission :: "externals \<Rightarrow> DbResource \<Rightarrow> row \<Rightarrow> go_panic + PermissionInstance" where
  "GetRowPermission ext dr row =
     (let refId = (if row_has row ''reference_id'' then row_get row ''reference_id''
                   else row_get row ''id'')
      in bindE (assert_string (row_get row ''__type'')) (\<lambda>rowType.
         bindE (row_owner ext dr row refId rowType PermissionInstance_zero) (\<lambda>(row1, perm1).
         bindE (row_groups dr row1 refId rowType perm1) (\<lambda>perm2.
           row_permission dr row1 refId rowType perm2))))"

text \<open>The synthetic membership of a group in itself.\<close>

definition self_membership :: "string \<Rightarrow> int \<Rightarrow> GroupPermission" where
  "self_membership ref p =
     \<lparr>GroupReferenceId = ref, ObjectReferenceId = ref, RelationReferenceId = ref, gp_Permission = p\<rparr>"

text \<open>No stored row of the table \<open>ns\<close> has the internal id \<open>n\<close>.\<close>

definition target_missing :: "DbResource \<Rightarrow> string \<Rightarrow> int \<Rightarrow> bool" where
  "target_missing dr ns n =
     (case db dr ns of None \<Rightarrow> True | Some t \<Rightarrow> list_all (\<lambda>r. row_get r ''id'' \<noteq> VInt n) t)"

section \<open>Well-typed foreign-key values\<close>

text \<open>
  The values the resolver's type assertions accept: in a \<open>self\<close> column \<open>nil\<close>, an
  \<open>int64\<close> or a string; in a \<open>cloud_store\<close> column \<open>nil\<close> or a string which, when it
  decodes, decodes to descriptors that each carry a string \<open>name\<close>.
\<close>

definition files_named :: "row list \<Rightarrow> bool" where
  "files_named fs = list_all (\<lambda>f. scanString (row_get f ''name'') \<noteq> None) fs"

definition foreign_value_ok :: "externals \<Rightarrow> ColumnInfo \<Rightarrow> val \<Rightarrow> bool" where
  "foreign_value_ok ext ci v =
     (if \<not> IsForeignKey ci then True
      else if DataSource (ForeignKeyData ci) = ''self'' then
        (case v of VNil \<Rightarrow> True | VInt n \<Rightarrow> True | VStr s \<Rightarrow> True | _ \<Rightarrow> False)
      else if DataSource (ForeignKeyData ci) = ''cloud_store'' then
        (case v of
           VNil \<Rightarrow> True
         | VStr s \<Rightarrow> (case json_Unmarshal ext s of None \<Rightarrow> True | Some fs \<Rightarrow> files_named fs)
         | _ \<Rightarrow> False)
      else True)"

definition key_well_typed :: "externals \<Rightarrow> (string \<rightharpoonup> ColumnInfo) \<Rightarrow> row \<Rightarrow> string \<Rightarrow> bool" where
  "key_well_typed ext cm row k =
     (case cm k of None \<Rightarrow> True | Some ci \<Rightarrow> foreign_value_ok ext ci (row_get row k))"

definition row_well_typed :: "externals \<Rightarrow> (string \<rightharpoonup> ColumnInfo) \<Rightarrow> row \<Rightarrow> bool" where
  "row_well_typed ext cm row = list_all (key_well_typed ext cm row) (map fst row)"

text \<open>
  Every stored table has a registered model, and its rows are well typed for the
  column map of that model once \<open>RowsToMap\<close> has added the \<open>__type\<close> entry.
\<close>

definition scanned :: "DbResource \<Rightarrow> row \<Rightarrow> row" where
  "scanned dr r = row_set r ''__type'' (VStr (GetName (model dr)))"

definition tables_well_typed :: "externals \<Rightarrow> DbResource \<Rightarrow> bool" where
  "tables_well_typed ext dr =
     (\<forall>ns rs. db dr ns = Some rs \<longrightarrow>
        (\<exists>crud. map_of (Cruds dr) ns = Some crud
           \<and> list_all (\<lambda>r. row_well_typed ext (GetColumnMap crud) (scanned dr r)) rs))"

text \<open>
  The object loader returns an object whenever the relation is included and the
  translation of the id succeeded.
\<close>

definition fetch_ok ::
    "(string \<Rightarrow> int \<Rightarrow> go_panic + (row option \<times> go_error option)) \<Rightarrow> DbResource \<Rightarrow>
     (string \<rightharpoonup> bool) option \<Rightarrow> bool" where
  "fetch_ok fetch dr im =
     (\<forall>ns n ref. relation_included im ns \<longrightarrow> GetIdToReferenceId dr ns n = (ref, None) \<longrightarrow>
        (\<exists>obj err. fetch ns n = Inr (Some obj, err)))"

section \<open>Becoming the administrator\<close>

text \<open>
  The permission constants of the \<open>auth\<close> package are not among the sources; the ones
  \<open>BecomeAdmin\<close> writes are parameters.
\<close>

record auth_constants =
  DEFAULT_PERMISSION :: int
  GuestPeek :: int
  GuestRead :: int
  GuestCreate :: int
  GuestExecute :: int
  UserRead :: int
  UserCreate :: int
  UserExecute :: int
  GroupRead :: int
  GroupCreate :: int
  GroupCRUD :: int
  GroupExecute :: int
  GroupRefer :: int

abbreviation USER_GROUP_JOIN_TABLE :: string where
  "USER_GROUP_JOIN_TABLE \<equiv> ''user_account_user_account_id_has_usergroup_usergroup_id''"

text \<open>
  \<open>db.Exec\<close> of an \<open>UPDATE t SET ... WHERE p\<close> and of an \<open>INSERT\<close>.  A statement on a
  table that does not exist fails and changes nothing; the callers log the failure
  and go on.  Constraints of the schema are not modelled.
\<close>

definition set_columns :: "(string \<times> val) list \<Rightarrow> row \<Rightarrow> row" where
  "set_columns sets r = foldl (\<lambda>r' (k, v). row_set r' k v) r sets"

definition exec_update ::
    "(string \<rightharpoonup> row list) \<Rightarrow> string \<Rightarrow> (string \<times> val) list \<Rightarrow> (row \<Rightarrow> bool) \<Rightarrow> (string \<rightharpoonup> row list)" where
  "exec_update d t sets p =
     (case d t of
        None \<Rightarrow> d
      | Some rs \<Rightarrow> d(t \<mapsto> map (\<lambda>r. if p r then set_columns sets r else r) rs))"

definition exec_insert :: "(string \<rightharpoonup> row list) \<Rightarrow> string \<Rightarrow> row \<Rightarrow> (string \<rightharpoonup> row list)" where
  "exec_insert d t r = (case d t of None \<Rightarrow> d | Some rs \<Rightarrow> d(t \<mapsto> rs @ [r]))"

text \<open>
  \<^verbatim>\<open>table_name LIKE '%_audit'\<close>: any text, one more character, then \<open>audit\<close>, the
  ASCII letters compared without regard to case, as sqlite and MySQL evaluate \<open>LIKE\<close>.
  \<open>NULL\<close> is neither like nor not like the pattern.
\<close>

definition ascii_lower :: "char \<Rightarrow> char" where
  "ascii_lower c =
     (if 65 \<le> (of_char c :: nat) \<and> (of_char c :: nat) \<le> 90 then char_of ((of_char c :: nat) + 32) else c)"

definition matches_audit :: "string \<Rightarrow> bool" where
  "matches_audit s = (6 \<le> length s \<and> map ascii_lower (drop (length s - 5) s) = ''audit'')"

definition like_audit :: "val \<Rightarrow> bool" where
  "like_audit v = (case v of VStr s \<Rightarrow> matches_audit s | _ \<Rightarrow> False)"

definition not_like_audit :: "val \<Rightarrow> bool" where
  "not_like_audit v = (case v of VStr s \<Rightarrow> \<not> matches_audit s | _ \<Rightarrow> False)"

text \<open>\<open>UserGroupNameToId\<close>: the id of the first group of that name, scanned into a \<open>uint64\<close>.\<close>

definition UserGroupNameToId :: "DbResource \<Rightarrow> string \<Rightarrow> int \<times> go_error option" where
  "UserGroupNameToId dr groupName =
     (case select_where dr ''usergroup'' ''name'' (VStr groupName) of
        None \<Rightarrow> (0, Some ErrQuery)
      | Some [] \<Rightarrow> (0, Some ErrNoRows)
      | Some (r # _) \<Rightarrow>
          (case scanUint64 (row_get r ''id'') of
             None \<Rightarrow> (0, Some ErrScan)
           | Some n \<Rightarrow> (n, None)))"

text \<open>
  Modelled from the spec: \<open>GetAdminReferenceId\<close> is not among the sources.  The spec
  derives the administrator state by checking whether any user currently holds
  membership in the distinguished \<open>administrators\<close> group.  \<open>admin_holders\<close> lists the
  reference ids of the users that hold such a membership: a row of the user-to-group
  association table that links a stored user to a group named \<open>administrators\<close>.
  \<open>GetAdminReferenceId\<close> is the first of them, or the empty string when there is none.
\<close>

definition membership_holders :: "row list \<Rightarrow> row list \<Rightarrow> row list \<Rightarrow> string list" where
  "membership_holders ms gs us =
     [ref. m \<leftarrow> ms, g \<leftarrow> gs,
           sql_eq (row_get g ''name'') (VStr ''administrators''),
           sql_eq (row_get m ''usergroup_id'') (row_get g ''id''),
           u \<leftarrow> us,
           sql_eq (row_get m USER_ACCOUNT_ID_COLUMN) (row_get u ''id''),
           ref \<leftarrow> (case scanString (row_get u ''reference_id'') of None \<Rightarrow> [] | Some s \<Rightarrow> [s]),
           ref \<noteq> []]"

definition admin_holders :: "(string \<rightharpoonup> row list) \<Rightarrow> string list" where
  "admin_holders d =
     (case d USER_GROUP_JOIN_TABLE of
        None \<Rightarrow> []
      | Some ms \<Rightarrow>
          (case d ''usergroup'' of
             None \<Rightarrow> []
           | Some gs \<Rightarrow>
               (case d USER_ACCOUNT_TABLE_NAME of
                  None \<Rightarrow> []
                | Some us \<Rightarrow> membership_holders ms gs us)))"

definition GetAdminReferenceId :: "DbResource \<Rightarrow> string" where
  "GetAdminReferenceId dr = (case admin_holders (db dr) of [] \<Rightarrow> [] | ref # _ \<Rightarrow> ref)"

definition CanBecomeAdmin :: "DbResource \<Rightarrow> bool" where
  "CanBecomeAdmin dr = (let adminRefId = GetAdminReferenceId dr in if adminRefId = [] then True else False)"

text \<open>
  The loop of \<open>BecomeAdmin\<close> over \<open>Cruds\<close>: every table with an owner column, the
  user-to-group association table excepted, gets the new owner and the default
  permission on all its rows.
\<close>

definition promote_table :: "auth_constants \<Rightarrow> int \<Rightarrow> (string \<rightharpoonup> row list) \<Rightarrow> Model \<Rightarrow> (string \<rightharpoonup> row list)" where
  "promote_table a userId d crud =
     (if GetName crud = USER_GROUP_JOIN_TABLE then d
      else if HasColumn crud USER_ACCOUNT_ID_COLUMN then
        exec_update d (GetName crud)
          [(USER_ACCOUNT_ID_COLUMN, VInt userId), (''permission'', VInt (DEFAULT_PERMISSION a))]
          (\<lambda>r. True)
      else d)"

text \<open>
  \<open>BecomeAdmin\<close> returns its boolean and the resource with the database as the
  statements left it.  \<open>reference_id\<close> is the identifier \<open>uuid.NewV4()\<close> produced.
\<close>

definition BecomeAdmin :: "auth_constants \<Rightarrow> string \<Rightarrow> DbResource \<Rightarrow> int \<Rightarrow> bool \<times> DbResource" where
  "BecomeAdmin a reference_id dr userId =
     (if \<not> CanBecomeAdmin dr then (False, dr)
      else
        (let d1 = foldl (promote_table a userId) (db dr) (map snd (Cruds dr));
             adminUsergroupId = fst (UserGroupNameToId (dr\<lparr>db := d1\<rparr>) ''administrators'');
             d2 = exec_insert d1 USER_GROUP_JOIN_TABLE
                    [(USER_ACCOUNT_ID_COLUMN, VInt userId), (''usergroup_id'', VInt adminUsergroupId),
                     (''permission'', VInt (DEFAULT_PERMISSION a)), (''reference_id'', VStr reference_id)];
             d3 = exec_update d2 ''world''
                    [(''permission'', VInt (DEFAULT_PERMISSION a)),
                     (''default_permission'', VInt (DEFAULT_PERMISSION a))]
                    (\<lambda>r. not_like_audit (row_get r ''table_name''));
             d4 = exec_update d3 ''world''
                    [(''permission'', VInt (GuestCreate a OR UserCreate a OR GroupCreate a)),
                     (''default_permission'', VInt (GuestRead a OR UserRead a OR GroupRead a))]
                    (\<lambda>r. like_audit (row_get r ''table_name''));
             d5 = exec_update d4 ''action''
                    [(''permission'',
                      VInt (UserRead a OR UserExecute a OR GroupCRUD a OR GroupExecute a OR GroupRefer a))]
                    (\<lambda>r. True);
             d6 = exec_update d5 ''action''
                    [(''permission'',
                      VInt (GuestPeek a OR GuestExecute a OR UserRead a OR UserExecute a OR GroupRead a
                            OR GroupExecute a))]
                    (\<lambda>r. sql_eq (row_get r ''action_name'') (VStr ''signin''))
         in (True, dr\<lparr>db := d6\<rparr>)))"

text \<open>
  A sequence of calls of \<open>BecomeAdmin\<close>, each with its user and its fresh identifier,
  threading the database through; the result is the final resource.
\<close>

fun BecomeAdmin_calls :: "auth_constants \<Rightarrow> DbResource \<Rightarrow> (string \<times> int) list \<Rightarrow> DbResource" where
  "BecomeAdmin_calls a dr [] = dr"
| "BecomeAdmin_calls a dr ((reference_id, userId) # calls) =
     BecomeAdmin_calls a (snd (BecomeAdmin a reference_id dr userId)) calls"

text \<open>
  A dataset in which \<open>userId\<close> can be promoted: the user-to-group association table
  exists, a group named \<open>administrators\<close> is found, and a stored user has the internal
  id \<open>userId\<close> and a reference id that is not empty.
\<close>

definition promotable :: "DbResource \<Rightarrow> int \<Rightarrow> bool" where
  "promotable dr userId =
     (db dr USER_GROUP_JOIN_TABLE \<noteq> None
      \<and> snd (UserGroupNameToId dr ''administrators'') = None
      \<and> (case db dr USER_ACCOUNT_TABLE_NAME of
            None \<Rightarrow> False
          | Some us \<Rightarrow>
              list_ex (\<lambda>u. row_get u ''id'' = VInt userId
                          \<and> (case row_get u ''reference_id'' of VStr s \<Rightarrow> s \<noteq> [] | _ \<Rightarrow> False)) us))"

text \<open>
  What the updates of \<open>BecomeAdmin\<close> leave alone: the association table of users and
  groups, and in every other table every column but the owner and the two permission
  columns.
\<close>

definition frame_update :: "(string \<rightharpoonup> row list) \<Rightarrow> (string \<rightharpoonup> row list) \<Rightarrow> bool" where
  "frame_update d d' =
     (d' USER_GROUP_JOIN_TABLE = d USER_GROUP_JOIN_TABLE
      \<and> (\<forall>t. \<exists>F. (\<forall>r c. c \<noteq> USER_ACCOUNT_ID_COLUMN \<and> c \<noteq> ''permission'' \<and> c \<noteq> ''default_permission''
                       \<longrightarrow> row_get (F r) c = row_get r c)
                 \<and> d' t = map_option (map F) (d t)))"

section \<open>Well-formed tables and an example dataset\<close>

text \<open>
  The data model's invariant on a table (every row carries an integer \<open>id\<close> and a
  text \<open>reference_id\<close>; the \<open>id\<close> is the primary key; every reference id is unique
  within its owning table).
\<close>

definition table_wf :: "row list \<Rightarrow> bool" where
  "table_wf rs =
     (list_all (\<lambda>r. scanInt64 (row_get r ''id'') \<noteq> None) rs
      \<and> list_all (\<lambda>r. scanString (row_get r ''reference_id'') \<noteq> None) rs
      \<and> distinct (map (\<lambda>r. row_get r ''id'') rs)
      \<and> distinct (map (\<lambda>r. row_get r ''reference_id'') rs))"

text \<open>A small dataset on which the theorems are instantiated.\<close>

definition demo_user_account :: "row list" where
  "demo_user_account =
     [[(''id'', VInt 1), (''reference_id'', VStr ''u-1'')],
      [(''id'', VInt 2), (''reference_id'', VStr ''u-2'')]]"

definition demo_usergroup :: "row list" where
  "demo_usergroup =
     [[(''id'', VInt 1), (''reference_id'', VStr ''g-1''), (''name'', VStr ''guests'')],
      [(''id'', VInt 2), (''reference_id'', VStr ''g-2''), (''name'', VStr ''administrators'')]]"

definition demo_world :: "row list" where
  "demo_world =
     [[(''id'', VInt 1), (''reference_id'', VStr ''w-1''), (''table_name'', VStr ''book''),
       (''user_account_id'', VInt 1), (''permission'', VInt 3)]]"

definition demo_action :: "row list" where
  "demo_action =
     [[(''id'', VInt 1), (''reference_id'', VStr ''a-1''), (''action_name'', VStr ''publish''),
       (''user_account_id'', VNil), (''permission'', VInt 5)]]"

definition demo_db :: "string \<rightharpoonup> row list" where
  "demo_db =
     map_of
       [(''user_account'', demo_user_account),
        (''usergroup'', demo_usergroup),
        (''world'', demo_world),
        (''action'', demo_action),
        (''world_world_id_has_usergroup_usergroup_id'',
           [[(''world_id'', VInt 1), (''usergroup_id'', VInt 2), (''reference_id'', VStr ''m-1''),
             (''permission'', VInt 7)]]),
        (''action_action_id_has_usergroup_usergroup_id'', []),
        (''user_account_user_account_id_has_usergroup_usergroup_id'', [])]"

definition demo_model :: "string \<Rightarrow> Model" where
  "demo_model n =
     \<lparr>GetName = n, GetColumnMap = Map.empty,
      HasColumn = (\<lambda>c. c = ''user_account_id'' \<or> c = ''permission'' \<or> c = ''id'' \<or> c = ''reference_id''),
      HasMany = (\<lambda>c. False), GetDefaultPermission = 9\<rparr>"

definition demo_dr :: DbResource where
  "demo_dr =
     \<lparr>db = demo_db,
      Cruds = [(''usergroup'', demo_model ''usergroup''), (''user_account'', demo_model ''user_account''),
               (''world'', demo_model ''world''), (''action'', demo_model ''action'')],
      model = demo_model ''world'', TableName = ''world'', AssetFolderCache = Map.empty\<rparr>"

definition demo_ext :: externals where
  "demo_ext =
     \<lparr>GetTime = (\<lambda>s. None), GetDateTime = (\<lambda>s. None),
      json_Unmarshal = (\<lambda>s. if s = ''[{}]'' then Some [[]] else None),
      ReadFile = (\<lambda>p. None), EncodeToString = (\<lambda>b. b)\<rparr>"

definition demo_book_columns :: "string \<rightharpoonup> ColumnInfo" where
  "demo_book_columns =
     map_of
       [(''author_id'',
         \<lparr>ColumnName = ''author_id'', ColumnType = ''alias'', IsForeignKey = True,
          ForeignKeyData = \<lparr>DataSource = ''self'', Namespace = ''user_account'', KeyName = ''id''\<rparr>\<rparr>),
        (''cover'',
         \<lparr>ColumnName = ''cover'', ColumnType = ''image.png'', IsForeignKey = True,
          ForeignKeyData = \<lparr>DataSource = ''cloud_store'', Namespace = ''store'', KeyName = ''covers''\<rparr>\<rparr>)]"

definition demo_books :: "row list" where
  "demo_books =
     [[(''id'', VInt 10), (''author_id'', VInt 7)],
      [(''id'', VInt 11), (''author_id'', VInt 2)]]"

definition demo_auth :: auth_constants where
  "demo_auth =
     \<lparr>DEFAULT_PERMISSION = 2097057, GuestPeek = 1, GuestRead = 2, GuestCreate = 4, GuestExecute = 32,
      UserRead = 256, UserCreate = 512, UserExecute = 4096, GroupRead = 32768, GroupCreate = 65536,
      GroupCRUD = 507904, GroupExecute = 524288, GroupRefer = 1048576\<rparr>"

definition demo_library :: DbResource where
  "demo_library =
     \<lparr>db = map_of [(''book'', demo_books), (''user_account'', demo_user_account)],
      Cruds = [(''book'', (demo_model ''book'')\<lparr>GetColumnMap := demo_book_columns\<rparr>),
               (''user_account'', demo_model ''user_account'')],
      model = (demo_model ''book'')\<lparr>GetColumnMap := demo_book_columns\<rparr>,
      TableName = ''book'', AssetFolderCache = Map.empty\<rparr>"

definition demo_batch :: "row list" where
  "demo_batch =
     [[(''id'', VInt 10), (''author_id'', VInt 7), (''cover'', VStr ''not json'')],
      [(''id'', VInt 11), (''author_id'', VStr ''abc''), (''cover'', VNil)],
      [(''id'', VInt 12), (''author_id'', VInt 2), (''cover'', VStr [])]]"

text \<open>
  The library after the user with id 2 has been deleted: the table \<open>user_account\<close>
  keeps the user 1 alone, and nothing else has changed.
\<close>

definition demo_library_after :: DbResource where
  "demo_library_after =
     demo_library\<lparr>db := map_of [(''book'', demo_books),
                                (''user_account'', [[(''id'', VInt 1), (''reference_id'', VStr ''u-1'')]])]\<rparr>"

section \<open>Properties of \<open>trimToLimit\<close>\<close>

lemma TrimSpace_length: "length (TrimSpace s) \<le> length s"
proof -
  have "length (dropWhile asciiSpace (rev (dropWhile asciiSpace s))) \<le> length (rev (dropWhile asciiSpace s))"
    by (rule length_dropWhile_le)
  also have "\<dots> \<le> length s"
    by (simp add: length_dropWhile_le)
  finally show ?thesis
    by (simp add: TrimSpace_def)
qed

text \<open>
  Claim C10.  For a non-negative limit, \<open>trimToLimit\<close> returns; when the string is
  longer than the limit the result is its first \<open>limit\<close> bytes (so at most \<open>limit\<close>
  long), otherwise the result is the trimmed string; in every case the result is at
  most \<open>limit\<close> and at most \<open>max limit (len str)\<close> bytes long.
\<close>

theorem trimToLimit_length:
  assumes "0 \<le> limit" and "\<And>s. length (trim s) \<le> length s"
  shows "\<exists>r. trimToLimit_with trim str limit = Inr r
           \<and> (if int (length str) > limit then r = take (nat limit) str else r = trim str)
           \<and> int (length r) \<le> limit
           \<and> int (length r) \<le> max limit (int (length str))"
proof (cases "int (length str) > limit")
  case True
  with assms(1) show ?thesis
    by (simp add: trimToLimit_with_def)
next
  case False
  have "length (trim str) \<le> length str"
    by (rule assms(2))
  with False show ?thesis
    by (simp add: trimToLimit_with_def)
qed

theorem trimToLimit_length_witness:
  "trimToLimit ''  ab '' 3 = Inr ''  a'' \<and> trimToLimit ''  ab '' 5 = Inr ''ab''"
proof -
  have "(0::int) \<le> 3" and "(0::int) \<le> 5"
    by simp_all
  note a = trimToLimit_length [OF \<open>(0::int) \<le> 3\<close>, of TrimSpace "''  ab ''", OF TrimSpace_length]
  note b = trimToLimit_length [OF \<open>(0::int) \<le> 5\<close>, of TrimSpace "''  ab ''", OF TrimSpace_length]
  from a b show ?thesis
    by (simp add: trimToLimit_def TrimSpace_def asciiSpace_def)
qed

section \<open>Reference id translation is a bijection on a well-formed table\<close>

lemma filter_unique:
  "distinct (map f xs) \<Longrightarrow> x \<in> set xs \<Longrightarrow> filter (\<lambda>y. f y = f x) xs = [x]"
proof (induction xs)
  case Nil
  then show ?case by simp
next
  case (Cons a xs)
  show ?case
  proof (cases "a = x")
    case True
    from Cons.prems(1) have "f a \<notin> f ` set xs"
      by simp
    with True have "\<forall>y\<in>set xs. f y \<noteq> f x"
      by (metis imageI)
    then have "filter (\<lambda>y. f y = f x) xs = []"
      by (simp add: filter_empty_conv)
    with True show ?thesis by simp
  next
    case False
    with Cons.prems have "x \<in> set xs" and "f a \<noteq> f x"
      by auto
    with Cons show ?thesis by simp
  qed
qed

lemma select_where_unique:
  assumes "db dr T = Some rs" and "distinct (map (\<lambda>r. row_get r c) rs)" and "r \<in> set rs"
    and "row_get r c = v" and "v \<noteq> VNil"
  shows "select_where dr T c v = Some [r]"
proof -
  have "filter (\<lambda>y. sql_eq (row_get y c) v) rs = filter (\<lambda>y. row_get y c = row_get r c) rs"
    using assms(4,5) by (auto simp: sql_eq_def intro!: filter_cong)
  also have "\<dots> = [r]"
    using assms(2,3) by (rule filter_unique)
  finally show ?thesis
    using assms(1) by (simp add: select_where_def)
qed

lemma select_where_hd:
  assumes "db dr T = Some rs" and "r \<in> set rs" and "row_get r c = v" and "v \<noteq> VNil"
  shows "\<exists>r0 rest. select_where dr T c v = Some (r0 # rest) \<and> r0 \<in> set rs \<and> row_get r0 c = v"
proof -
  let ?xs = "filter (\<lambda>y. sql_eq (row_get y c) v) rs"
  have "r \<in> set ?xs"
    using assms by (simp add: sql_eq_def)
  then obtain r0 rest where xs: "?xs = r0 # rest"
    by (cases ?xs) auto
  then have "r0 \<in> set ?xs"
    by simp
  then have "r0 \<in> set rs" and "row_get r0 c = v"
    by (auto simp: sql_eq_def)
  with xs assms(1) show ?thesis
    by (simp add: select_where_def)
qed

text \<open>
  Claim C5.  On a table that satisfies the data model's invariant (\<open>table_wf\<close>), for
  every internal id \<open>i\<close> of a stored row \<open>GetIdToReferenceId\<close> succeeds and
  \<open>GetReferenceIdToId\<close> of its result succeeds with \<open>i\<close>; and for every reference id
  \<open>ref\<close> of a stored row \<open>GetReferenceIdToId\<close> succeeds and \<open>GetIdToReferenceId\<close> of its
  result succeeds with \<open>ref\<close>.
\<close>

theorem reference_id_round_trip:
  assumes "db dr T = Some rs" and "table_wf rs"
  shows "((\<exists>r\<in>set rs. row_get r ''id'' = VInt i) \<longrightarrow>
            snd (GetIdToReferenceId dr T i) = None
            \<and> GetReferenceIdToId dr T (fst (GetIdToReferenceId dr T i)) = (i, None))
       \<and> ((\<exists>r\<in>set rs. row_get r ''reference_id'' = VStr ref) \<longrightarrow>
            snd (GetReferenceIdToId dr T ref) = None
            \<and> GetIdToReferenceId dr T (fst (GetReferenceIdToId dr T ref)) = (ref, None))"
proof (intro conjI impI)
  assume "\<exists>r\<in>set rs. row_get r ''id'' = VInt i"
  then obtain r where "r \<in> set rs" "row_get r ''id'' = VInt i"
    by blast
  with assms(1) obtain r0 rest where
    sel: "select_where dr T ''id'' (VInt i) = Some (r0 # rest)" and r0: "r0 \<in> set rs"
    and id0: "row_get r0 ''id'' = VInt i"
    using select_where_hd [of dr T rs r "''id''" "VInt i"] by auto
  from assms(2) r0 have "scanString (row_get r0 ''reference_id'') \<noteq> None"
    by (simp add: table_wf_def list_all_iff)
  then obtain s where s: "row_get r0 ''reference_id'' = VStr s"
    by (cases "row_get r0 ''reference_id''") (simp_all add: scanString_def)
  from sel s have fwd: "GetIdToReferenceId dr T i = (s, None)"
    by (simp add: GetIdToReferenceId_def scanString_def)
  from assms(2) have "distinct (map (\<lambda>r. row_get r ''reference_id'') rs)"
    by (simp add: table_wf_def)
  with assms(1) r0 s have "select_where dr T ''reference_id'' (VStr s) = Some [r0]"
    by (intro select_where_unique) auto
  with id0 have "GetReferenceIdToId dr T s = (i, None)"
    by (simp add: GetReferenceIdToId_def scanInt64_def)
  with fwd show "snd (GetIdToReferenceId dr T i) = None"
    and "GetReferenceIdToId dr T (fst (GetIdToReferenceId dr T i)) = (i, None)"
    by simp_all
next
  assume "\<exists>r\<in>set rs. row_get r ''reference_id'' = VStr ref"
  then obtain r where "r \<in> set rs" "row_get r ''reference_id'' = VStr ref"
    by blast
  with assms(1) obtain r0 rest where
    sel: "select_where dr T ''reference_id'' (VStr ref) = Some (r0 # rest)" and r0: "r0 \<in> set rs"
    and ref0: "row_get r0 ''reference_id'' = VStr ref"
    using select_where_hd [of dr T rs r "''reference_id''" "VStr ref"] by auto
  from assms(2) r0 have "scanInt64 (row_get r0 ''id'') \<noteq> None"
    by (simp add: table_wf_def list_all_iff)
  then obtain n where n: "row_get r0 ''id'' = VInt n"
    by (cases "row_get r0 ''id''") (simp_all add: scanInt64_def)
  from sel n have bwd: "GetReferenceIdToId dr T ref = (n, None)"
    by (simp add: GetReferenceIdToId_def scanInt64_def)
  from assms(2) have "distinct (map (\<lambda>r. row_get r ''id'') rs)"
    by (simp add: table_wf_def)
  with assms(1) r0 n have "select_where dr T ''id'' (VInt n) = Some [r0]"
    by (intro select_where_unique) auto
  with ref0 have "GetIdToReferenceId dr T n = (ref, None)"
    by (simp add: GetIdToReferenceId_def scanString_def)
  with bwd show "snd (GetReferenceIdToId dr T ref) = None"
    and "GetIdToReferenceId dr T (fst (GetReferenceIdToId dr T ref)) = (ref, None)"
    by simp_all
qed

lemma demo_db_user_account: "db demo_dr ''user_account'' = Some demo_user_account"
  by (simp add: demo_dr_def demo_db_def)

lemma demo_user_account_wf: "table_wf demo_user_account"
  by (simp add: table_wf_def demo_user_account_def row_get_def scanInt64_def scanString_def)

theorem reference_id_round_trip_witness:
  "GetIdToReferenceId demo_dr ''user_account'' 2 = (''u-2'', None)
   \<and> GetReferenceIdToId demo_dr ''user_account'' (fst (GetIdToReferenceId demo_dr ''user_account'' 2)) = (2, None)
   \<and> GetReferenceIdToId demo_dr ''user_account'' ''u-1'' = (1, None)
   \<and> GetIdToReferenceId demo_dr ''user_account'' (fst (GetReferenceIdToId demo_dr ''user_account'' ''u-1'')) = (''u-1'', None)"
proof -
  note rt = reference_id_round_trip [OF demo_db_user_account demo_user_account_wf, of 2 "''u-1''"]
  have a: "\<exists>r\<in>set demo_user_account. row_get r ''id'' = VInt 2"
    by (simp add: demo_user_account_def row_get_def)
  have b: "\<exists>r\<in>set demo_user_account. row_get r ''reference_id'' = VStr ''u-1''"
    by (simp add: demo_user_account_def row_get_def)
  have c: "GetIdToReferenceId demo_dr ''user_account'' 2 = (''u-2'', None)"
    by (simp add: GetIdToReferenceId_def select_where_def demo_db_user_account
        demo_user_account_def row_get_def sql_eq_def scanString_def)
  have d: "GetReferenceIdToId demo_dr ''user_account'' ''u-1'' = (1, None)"
    by (simp add: GetReferenceIdToId_def select_where_def demo_db_user_account
        demo_user_account_def row_get_def sql_eq_def scanInt64_def)
  from rt a b c d show ?thesis
    by simp
qed

section \<open>Object permissions and the action gate\<close>

lemma bindE_Inr_iff: "bindE x f = Inr y \<longleftrightarrow> (\<exists>v. x = Inr v \<and> f v = Inr y)"
  by (cases x) (simp_all add: bindE_def)

lemma bindE_Inr: "bindE (Inr v) f = f v"
  by (simp add: bindE_def)

lemma bindE_Inl: "bindE (Inl e) f = Inl e"
  by (simp add: bindE_def)

text \<open>
  Claim C9.  When the permission query yields no row (the table does not exist, or no
  stored row has \<open>colName = colValue\<close>), \<open>GetObjectPermissionByWhereClause\<close> returns the
  zero \<open>PermissionInstance\<close>: empty owner, no group permissions, permission 0.
\<close>

theorem GetObjectPermissionByWhereClause_no_row:
  assumes "\<And>rs. db dr objectType = Some rs \<Longrightarrow> \<forall>r\<in>set rs. row_get r colName \<noteq> VStr colValue"
  shows "GetObjectPermissionByWhereClause dr objectType colName colValue
           = Inr \<lparr>UserId = [], UserGroupId = [], Permission = 0\<rparr>"
proof (cases "db dr objectType")
  case None
  then show ?thesis
    by (simp add: GetObjectPermissionByWhereClause_def QueryRowx_MapScan_def select_where_def
        PermissionInstance_zero_def)
next
  case (Some rs)
  with assms have "\<forall>r\<in>set rs. row_get r colName \<noteq> VStr colValue"
    by simp
  then have "filter (\<lambda>r. sql_eq (row_get r colName) (VStr colValue)) rs = []"
    by (simp add: filter_empty_conv sql_eq_def)
  with Some show ?thesis
    by (simp add: GetObjectPermissionByWhereClause_def QueryRowx_MapScan_def select_where_def
        PermissionInstance_zero_def)
qed

theorem GetObjectPermissionByWhereClause_no_row_witness:
  "GetObjectPermissionByWhereClause demo_dr ''world'' ''table_name'' ''nosuch''
     = Inr \<lparr>UserId = [], UserGroupId = [], Permission = 0\<rparr>
   \<and> GetObjectPermissionByWhereClause demo_dr ''nowhere'' ''table_name'' ''book''
     = Inr \<lparr>UserId = [], UserGroupId = [], Permission = 0\<rparr>"
proof -
  have a: "\<And>rs. db demo_dr ''world'' = Some rs \<Longrightarrow> \<forall>r\<in>set rs. row_get r ''table_name'' \<noteq> VStr ''nosuch''"
    by (simp add: demo_dr_def demo_db_def demo_world_def row_get_def)
  have b: "\<And>rs. db demo_dr ''nowhere'' = Some rs \<Longrightarrow> \<forall>r\<in>set rs. row_get r ''table_name'' \<noteq> VStr ''book''"
    by (simp add: demo_dr_def demo_db_def)
  from GetObjectPermissionByWhereClause_no_row [of demo_dr "''world''" "''table_name''" "''nosuch''", OF a]
    GetObjectPermissionByWhereClause_no_row [of demo_dr "''nowhere''" "''table_name''" "''book''", OF b]
  show ?thesis
    by simp
qed

text \<open>
  Claim C1.  \<open>IsUserActionAllowed\<close> returns true exactly when both permission
  instances are obtained and \<open>CanExecute\<close> holds of the type's and of the action's;
  and whenever both instances are obtained, the result is the conjunction of the two
  checks, so that either check being false makes the result false.
\<close>

theorem IsUserActionAllowed_both:
  "(IsUserActionAllowed CanExecute dr u g typeName actionName = Inr True
      \<longleftrightarrow> (\<exists>p q. GetObjectPermissionByWhereClause dr ''world'' ''table_name'' typeName = Inr p
                 \<and> GetObjectPermissionByWhereClause dr ''action'' ''action_name'' actionName = Inr q
                 \<and> CanExecute p u g \<and> CanExecute q u g))
   \<and> (\<forall>p q. GetObjectPermissionByWhereClause dr ''world'' ''table_name'' typeName = Inr p
            \<longrightarrow> GetObjectPermissionByWhereClause dr ''action'' ''action_name'' actionName = Inr q
            \<longrightarrow> IsUserActionAllowed CanExecute dr u g typeName actionName
                  = Inr (CanExecute p u g \<and> CanExecute q u g))"
  by (auto simp: IsUserActionAllowed_def bindE_def Let_def split: sum.splits)

lemmas demo_eval = GetObjectPermissionByWhereClause_def QueryRowx_MapScan_def select_where_def
  demo_dr_def demo_db_def demo_world_def demo_action_def demo_user_account_def demo_usergroup_def
  row_get_def sql_eq_def owner_of_def assert_int64_def bindE_def GetIdToReferenceId_def scanString_def
  scanInt64_def GetObjectGroupsByObjectId_def join_usergroup_def StructScan_GroupPermission_def
  GroupPermission_zero_def PermissionInstance_zero_def

lemma demo_world_perm:
  "GetObjectPermissionByWhereClause demo_dr ''world'' ''table_name'' ''book''
     = Inr \<lparr>UserId = ''u-1'',
            UserGroupId = [\<lparr>GroupReferenceId = ''g-2'', ObjectReferenceId = ''w-1'',
                             RelationReferenceId = ''m-1'', gp_Permission = 7\<rparr>],
            Permission = 3\<rparr>"
  by (simp add: demo_eval)

lemma demo_action_perm:
  "GetObjectPermissionByWhereClause demo_dr ''action'' ''action_name'' ''publish''
     = Inr \<lparr>UserId = [], UserGroupId = [], Permission = 5\<rparr>"
  by (simp add: demo_eval)

theorem IsUserActionAllowed_both_witness:
  "IsUserActionAllowed (\<lambda>p u g. odd (Permission p)) demo_dr ''u-1'' [] ''book'' ''publish'' = Inr True
   \<and> IsUserActionAllowed (\<lambda>p u g. UserId p = u) demo_dr ''u-1'' [] ''book'' ''publish'' = Inr False"
proof -
  note a = IsUserActionAllowed_both [of "\<lambda>p u g. odd (Permission p)" demo_dr "''u-1''" "[]" "''book''" "''publish''"]
  note b = IsUserActionAllowed_both [of "\<lambda>p u g. UserId p = u" demo_dr "''u-1''" "[]" "''book''" "''publish''"]
  from a b show ?thesis
    by (simp add: demo_world_perm demo_action_perm)
qed

section \<open>The permission of a row: evaluation\<close>

lemma ParseInt_34: "ParseInt ''34'' = (34, None)"
  by (simp add: ParseInt_def ParseUint_def is_digit_def digit_val_def)

lemma ParseInt_over: "ParseInt ''9223372036854775808'' = (9223372036854775807, Some ErrRange)"
  by (simp add: ParseInt_def ParseUint_def is_digit_def digit_val_def)

lemma Index_world: "strings_Index ''world'' ''_has_'' = - 1"
  by simp

lemma demo_Cruds_world: "map_of (Cruds demo_dr) ''world'' = Some (demo_model ''world'')"
  by (simp add: demo_dr_def)

text \<open>
  Claim C3, at the input that refutes its last part.  A permission column holding the
  decimal string \<open>9223372036854775808\<close> (one past the largest \<open>int64\<close>) fails to
  parse with a range error, and the bitmask of the row is not zero but
  \<open>9223372036854775807\<close>, every bit set.
\<close>

theorem GetRowPermission_out_of_range:
  "GetRowPermission demo_ext demo_dr
     [(''__type'', VStr ''world''), (''reference_id'', VStr ''w-1''),
      (''user_account_id'', VStr ''u-1''), (''permission'', VStr ''9223372036854775808'')]
   = Inr \<lparr>UserId = ''u-1'', UserGroupId = [], Permission = 9223372036854775807\<rparr>"
  by (simp add: GetRowPermission_def row_has_def row_get_def assert_string_def bindE_def
      row_owner_def row_groups_def row_permission_def Index_world demo_Cruds_world demo_model_def
      string_or_empty_def PermissionInstance_zero_def ParseInt_over)

text \<open>
  Claim C4, at an input that refutes it.  A row of type \<open>world\<close> that carries its
  internal id but neither a \<open>reference_id\<close> key nor an owner column makes
  \<open>GetRowPermission\<close> panic: the fallback \<open>refId = row["id"]\<close> is an \<open>int64\<close>, and
  \<open>refId.(string)\<close> fails.
\<close>

theorem GetRowPermission_no_reference_id:
  "GetRowPermission demo_ext demo_dr [(''__type'', VStr ''world''), (''id'', VInt 1)] = Inl TypeAssertion"
  by (simp add: GetRowPermission_def row_has_def row_get_def assert_string_def bindE_def
      row_owner_def)

lemma Index_usergroup: "strings_Index ''usergroup'' ''_has_'' = - 1"
  by simp

lemma row_groups_usergroup:
  assumes "map_of (Cruds dr) ''usergroup'' = Some ug" and "\<not> HasMany ug ''usergroup''"
    and "row_get row ''reference_id'' = VStr ref"
  shows "row_groups dr row (VStr ref) ''usergroup'' perm
           = Inr (perm\<lparr>UserGroupId := [self_membership ref (GetDefaultPermission ug)]\<rparr>)"
  using assms
  by (simp add: row_groups_def Index_usergroup bindE_def assert_string_def self_membership_def)

lemma row_permission_UserGroupId:
  "row_permission dr row refId rowType perm = Inr perm' \<Longrightarrow> UserGroupId perm' = UserGroupId perm"
  by (auto simp: row_permission_def bindE_def Let_def split: if_splits sum.splits val.splits)

text \<open>
  Claim C8.  For the type \<open>usergroup\<close>, with the usergroup model registered:
  \<open>GetObjectGroupsByObjectId\<close> of an object whose reference id is \<open>ref\<close> returns
  exactly the one membership whose group, object and relation reference ids are \<open>ref\<close>
  and whose permission is the model's default permission; and \<open>GetRowPermission\<close> of a
  usergroup row with reference id \<open>ref\<close> returns an instance with exactly that
  membership (the usergroup model declaring no has-many relation to \<open>usergroup\<close>
  itself), and does return when the permission column holds an \<open>int64\<close>.
\<close>

theorem usergroup_self_membership:
  assumes "map_of (Cruds dr) ''usergroup'' = Some ug"
  shows "(GetIdToReferenceId dr ''usergroup'' i = (ref, None) \<longrightarrow>
            GetObjectGroupsByObjectId dr ''usergroup'' i
              = Inr [self_membership ref (GetDefaultPermission ug)])
       \<and> (row_get row ''__type'' = VStr ''usergroup'' \<and> map_of row ''reference_id'' = Some (VStr ref)
            \<and> \<not> HasMany ug ''usergroup'' \<longrightarrow>
            (\<forall>perm. GetRowPermission ext dr row = Inr perm \<longrightarrow>
               UserGroupId perm = [self_membership ref (GetDefaultPermission ug)])
            \<and> (\<forall>p. row_get row ''permission'' = VInt p \<longrightarrow>
                 GetRowPermission ext dr row
                   = Inr \<lparr>UserId = [], UserGroupId = [self_membership ref (GetDefaultPermission ug)],
                          Permission = p\<rparr>))"
proof (intro conjI impI)
  assume "GetIdToReferenceId dr ''usergroup'' i = (ref, None)"
  with assms show "GetObjectGroupsByObjectId dr ''usergroup'' i
      = Inr [self_membership ref (GetDefaultPermission ug)]"
    by (simp add: GetObjectGroupsByObjectId_def self_membership_def)
next
  assume h: "row_get row ''__type'' = VStr ''usergroup'' \<and> map_of row ''reference_id'' = Some (VStr ref)
      \<and> \<not> HasMany ug ''usergroup''"
  then have ref: "row_get row ''reference_id'' = VStr ref" and has: "row_has row ''reference_id''"
    by (simp_all add: row_get_def row_has_def)
  let ?g = "self_membership ref (GetDefaultPermission ug)"
  have eq: "GetRowPermission ext dr row
      = row_permission dr row (VStr ref) ''usergroup'' (PermissionInstance_zero\<lparr>UserGroupId := [?g]\<rparr>)"
    using h ref has row_groups_usergroup [OF assms, of row ref PermissionInstance_zero]
    by (simp add: GetRowPermission_def assert_string_def bindE_def row_owner_def)
  show "\<forall>perm. GetRowPermission ext dr row = Inr perm \<longrightarrow> UserGroupId perm = [?g]"
    using row_permission_UserGroupId [of dr row "VStr ref" "''usergroup''"
        "PermissionInstance_zero\<lparr>UserGroupId := [?g]\<rparr>"]
    by (simp add: eq)
  show "\<forall>p. row_get row ''permission'' = VInt p \<longrightarrow>
      GetRowPermission ext dr row = Inr \<lparr>UserId = [], UserGroupId = [?g], Permission = p\<rparr>"
    by (simp add: eq row_permission_def bindE_def PermissionInstance_zero_def)
qed

lemma demo_Cruds_usergroup: "map_of (Cruds demo_dr) ''usergroup'' = Some (demo_model ''usergroup'')"
  by (simp add: demo_dr_def)

theorem usergroup_self_membership_witness:
  "GetObjectGroupsByObjectId demo_dr ''usergroup'' 2 = Inr [self_membership ''g-2'' 9]
   \<and> GetRowPermission demo_ext demo_dr
        [(''__type'', VStr ''usergroup''), (''reference_id'', VStr ''g-2''), (''permission'', VInt 34)]
      = Inr \<lparr>UserId = [], UserGroupId = [self_membership ''g-2'' 9], Permission = 34\<rparr>"
proof -
  have a: "GetIdToReferenceId demo_dr ''usergroup'' 2 = (''g-2'', None)"
    by (simp add: GetIdToReferenceId_def select_where_def demo_dr_def demo_db_def
        demo_usergroup_def row_get_def sql_eq_def scanString_def)
  note t = usergroup_self_membership [OF demo_Cruds_usergroup, of 2 "''g-2''"
      "[(''__type'', VStr ''usergroup''), (''reference_id'', VStr ''g-2''), (''permission'', VInt 34)]"
      demo_ext]
  from t a show ?thesis
    by (simp add: row_get_def demo_model_def)
qed

lemma f64_to_i64_of_int: "- (2 ^ 63) \<le> n \<Longrightarrow> n < 2 ^ 63 \<Longrightarrow> f64_to_i64 (of_int n) = n"
  by (simp add: f64_to_i64_def Let_def)

text \<open>
  The three encodings of the permission column agree: for \<open>n\<close> within \<open>int64\<close>, the
  integer \<open>n\<close>, the floating-point number \<open>n\<close> and a string that parses to \<open>n\<close> all
  give the bitmask \<open>n\<close>; a string with a syntax error gives the bitmask 0.
\<close>

theorem row_permission_encodings:
  assumes "- (2 ^ 63) \<le> n" and "n < 2 ^ 63"
  shows "(row_get row ''permission'' = VInt n
          \<or> row_get row ''permission'' = VFloat (of_int n)
          \<or> (\<exists>s. row_get row ''permission'' = VStr s \<and> ParseInt s = (n, None))
          \<longrightarrow> row_permission dr row refId rowType perm = Inr (perm\<lparr>Permission := n\<rparr>))
       \<and> (\<forall>s. row_get row ''permission'' = VStr s \<and> snd (ParseInt s) = Some ErrSyntax
             \<longrightarrow> row_permission dr row refId rowType perm = Inr (perm\<lparr>Permission := 0\<rparr>))"
proof (intro conjI impI allI)
  assume "row_get row ''permission'' = VInt n
      \<or> row_get row ''permission'' = VFloat (of_int n)
      \<or> (\<exists>s. row_get row ''permission'' = VStr s \<and> ParseInt s = (n, None))"
  then show "row_permission dr row refId rowType perm = Inr (perm\<lparr>Permission := n\<rparr>)"
    using assms by (auto simp: row_permission_def bindE_def f64_to_i64_of_int)
next
  fix s
  assume h: "row_get row ''permission'' = VStr s \<and> snd (ParseInt s) = Some ErrSyntax"
  then have "fst (ParseInt s) = 0"
    by (auto simp: ParseInt_def Let_def split: if_splits prod.splits)
  with h show "row_permission dr row refId rowType perm = Inr (perm\<lparr>Permission := 0\<rparr>)"
    by (simp add: row_permission_def bindE_def)
qed

lemma ParseInt_3x: "ParseInt ''3x'' = (0, Some ErrSyntax)"
  by (simp add: ParseInt_def ParseUint_def is_digit_def digit_val_def)

theorem row_permission_encodings_witness:
  "row_permission demo_dr [(''permission'', VStr ''34'')] (VStr ''w-1'') ''world'' PermissionInstance_zero
     = Inr (PermissionInstance_zero\<lparr>Permission := 34\<rparr>)
   \<and> row_permission demo_dr [(''permission'', VFloat 34)] (VStr ''w-1'') ''world'' PermissionInstance_zero
     = Inr (PermissionInstance_zero\<lparr>Permission := 34\<rparr>)
   \<and> row_permission demo_dr [(''permission'', VInt 34)] (VStr ''w-1'') ''world'' PermissionInstance_zero
     = Inr (PermissionInstance_zero\<lparr>Permission := 34\<rparr>)
   \<and> row_permission demo_dr [(''permission'', VStr ''3x'')] (VStr ''w-1'') ''world'' PermissionInstance_zero
     = Inr (PermissionInstance_zero\<lparr>Permission := 0\<rparr>)"
proof -
  have r: "- (2 ^ 63) \<le> (34::int)" "(34::int) < 2 ^ 63"
    by simp_all
  note a = row_permission_encodings [OF r, of "[(''permission'', VStr ''34'')]" demo_dr "VStr ''w-1''"
      "''world''" PermissionInstance_zero]
  note b = row_permission_encodings [OF r, of "[(''permission'', VFloat 34)]" demo_dr "VStr ''w-1''"
      "''world''" PermissionInstance_zero]
  note c = row_permission_encodings [OF r, of "[(''permission'', VInt 34)]" demo_dr "VStr ''w-1''"
      "''world''" PermissionInstance_zero]
  note d = row_permission_encodings [OF r, of "[(''permission'', VStr ''3x'')]" demo_dr "VStr ''w-1''"
      "''world''" PermissionInstance_zero]
  from a b c d show ?thesis
    by (simp add: row_get_def ParseInt_34 ParseInt_3x)
qed

section \<open>Relation expansion\<close>

lemma row_get_set_same: "row_get (row_set r k v) k = v"
  by (simp add: row_get_def row_set_def update_conv')

lemma row_get_set_other: "k \<noteq> k' \<Longrightarrow> row_get (row_set r k' v) k = row_get r k"
  by (simp add: row_get_def row_set_def update_conv')

lemma coerce_datetime_other:
  "k \<noteq> k' \<Longrightarrow> row_get (coerce_datetime ext ci row k' v) k = row_get row k"
  by (simp add: coerce_datetime_def row_get_set_other split: val.splits option.splits)

lemma coerce_datetime_VInt: "coerce_datetime ext ci row k (VInt n) = row"
  by (simp add: coerce_datetime_def)

lemma resolve_self_other:
  assumes "resolve_self fetch dr im objMap ns k' v (row, inc) = Inr (row', inc')" and "k \<noteq> k'"
  shows "row_get row' k = row_get row k"
  using assms
  by (auto simp: resolve_self_def bindE_Inr_iff Let_def row_get_set_other
      split: val.splits option.splits prod.splits if_splits)

lemma resolve_cloud_store_other:
  assumes "resolve_cloud_store ext dr im ci k' v (row, inc) = Inr (row', inc')" and "k \<noteq> k'"
  shows "row_get row' k = row_get row k"
  using assms
  by (auto simp: resolve_cloud_store_def bindE_Inr_iff Let_def row_get_set_other
      split: val.splits option.splits prod.splits if_splits)

lemma resolve_column_other:
  assumes "resolve_column fetch ext dr cm im (row, inc) k' = Inr (row', inc')" and "k \<noteq> k'"
  shows "row_get row' k = row_get row k"
proof (cases "cm k'")
  case None
  with assms show ?thesis
    by (simp add: resolve_column_def)
next
  case (Some ci)
  let ?row1 = "coerce_datetime ext ci row k' (row_get row k')"
  have c: "row_get ?row1 k = row_get row k"
    using assms(2) by (rule coerce_datetime_other)
  from assms(1) Some consider
      "row' = ?row1"
    | "resolve_self fetch dr im Map.empty (Namespace (ForeignKeyData ci)) k' (row_get row k') (?row1, inc)
         = Inr (row', inc')"
    | "resolve_cloud_store ext dr im ci k' (row_get row k') (?row1, inc) = Inr (row', inc')"
    by (auto simp: resolve_column_def Let_def split: if_splits)
  then show ?thesis
  proof cases
    case 1
    with c show ?thesis by simp
  next
    case 2
    from resolve_self_other [OF 2 assms(2)] c show ?thesis by simp
  next
    case 3
    from resolve_cloud_store_other [OF 3 assms(2)] c show ?thesis by simp
  qed
qed

lemma GetIdToReferenceId_missing:
  assumes "\<And>rs. db dr ns = Some rs \<Longrightarrow> \<forall>r\<in>set rs. row_get r ''id'' \<noteq> VInt n"
  shows "\<exists>e. GetIdToReferenceId dr ns n = ([], Some e)"
proof (cases "db dr ns")
  case None
  then show ?thesis
    by (simp add: GetIdToReferenceId_def select_where_def)
next
  case (Some rs)
  with assms have "\<forall>r\<in>set rs. row_get r ''id'' \<noteq> VInt n"
    by simp
  then have "filter (\<lambda>r. sql_eq (row_get r ''id'') (VInt n)) rs = []"
    by (simp add: filter_empty_conv sql_eq_def)
  with Some show ?thesis
    by (simp add: GetIdToReferenceId_def select_where_def)
qed

lemma resolve_column_self_failed:
  assumes "cm k = Some ci" and "IsForeignKey ci" and "DataSource (ForeignKeyData ci) = ''self''"
    and "row_get row k = VInt n"
    and "GetIdToReferenceId dr (Namespace (ForeignKeyData ci)) n = (s, Some e)"
  shows "resolve_column fetch ext dr cm im (row, inc) k = Inr (row, inc)"
  using assms
  by (simp add: resolve_column_def coerce_datetime_VInt resolve_self_def bindE_def)

lemma resolve_column_self_translated:
  assumes "cm k = Some ci" and "IsForeignKey ci" and "DataSource (ForeignKeyData ci) = ''self''"
    and "row_get row k = VInt n"
    and "GetIdToReferenceId dr (Namespace (ForeignKeyData ci)) n = (ref, None)"
    and "resolve_column fetch ext dr cm im (row, inc) k = Inr (row', inc')"
  shows "row_get row' k = VStr ref"
  using assms
  by (auto simp: resolve_column_def coerce_datetime_VInt resolve_self_def bindE_Inr_iff Let_def
      row_get_set_same split: if_splits option.splits prod.splits)

lemma resolve_columns_skip:
  assumes "\<And>row inc. row_get row k = v \<Longrightarrow> resolve_column fetch ext dr cm im (row, inc) k = Inr (row, inc)"
    and "row_get (fst st) k = v"
  shows "resolve_columns fetch ext dr cm im ks st
           = resolve_columns fetch ext dr cm im (removeAll k ks) st"
  using assms(2)
proof (induction ks arbitrary: st)
  case Nil
  then show ?case by simp
next
  case (Cons k' ks)
  obtain row inc where st: "st = (row, inc)"
    by (cases st)
  show ?case
  proof (cases "k' = k")
    case True
    from Cons.prems st have "resolve_column fetch ext dr cm im st k = Inr st"
      using assms(1) [of row inc] by simp
    with True Cons show ?thesis
      by (simp add: bindE_Inr)
  next
    case False
    show ?thesis
    proof (cases "resolve_column fetch ext dr cm im st k'")
      case (Inl e)
      with False show ?thesis
        by (simp add: bindE_Inl)
    next
      case (Inr st')
      obtain row' inc' where st': "st' = (row', inc')"
        by (cases st')
      from Inr st st' False have "row_get row' k = row_get row k"
        using resolve_column_other [of fetch ext dr cm im row inc k' row' inc' k] by simp
      with Cons.prems st st' have "row_get (fst st') k = v"
        by simp
      from Cons.IH [OF this] Inr False show ?thesis
        by (simp add: bindE_Inr)
    qed
  qed
qed

lemma resolve_columns_keeps:
  assumes "\<And>row inc. row_get row k = v \<Longrightarrow> resolve_column fetch ext dr cm im (row, inc) k = Inr (row, inc)"
    and "row_get (fst st) k = v"
    and "resolve_columns fetch ext dr cm im ks st = Inr st'"
  shows "row_get (fst st') k = v"
  using assms(2,3)
proof (induction ks arbitrary: st)
  case Nil
  then show ?case by simp
next
  case (Cons k' ks)
  obtain row inc where st: "st = (row, inc)"
    by (cases st)
  from Cons.prems(2) obtain st1 where
    s1: "resolve_column fetch ext dr cm im st k' = Inr st1"
    and s2: "resolve_columns fetch ext dr cm im ks st1 = Inr st'"
    by (auto simp: bindE_Inr_iff)
  obtain row1 inc1 where st1: "st1 = (row1, inc1)"
    by (cases st1)
  have "row_get (fst st1) k = v"
  proof (cases "k' = k")
    case True
    from Cons.prems(1) st have "resolve_column fetch ext dr cm im st k = Inr st"
      using assms(1) [of row inc] by simp
    with True s1 have "st1 = st"
      by simp
    with Cons.prems(1) show ?thesis
      by simp
  next
    case False
    with s1 st st1 have "row_get row1 k = row_get row k"
      using resolve_column_other [of fetch ext dr cm im row inc k' row1 inc1 k] by simp
    with Cons.prems(1) st st1 show ?thesis
      by simp
  qed
  from Cons.IH [OF this s2] show ?case .
qed

lemma resolve_columns_absent:
  assumes "k \<notin> set ks" and "resolve_columns fetch ext dr cm im ks st = Inr st'"
  shows "row_get (fst st') k = row_get (fst st) k"
  using assms
proof (induction ks arbitrary: st)
  case Nil
  then show ?case by simp
next
  case (Cons k' ks)
  from Cons.prems(2) obtain st1 where
    s1: "resolve_column fetch ext dr cm im st k' = Inr st1"
    and s2: "resolve_columns fetch ext dr cm im ks st1 = Inr st'"
    by (auto simp: bindE_Inr_iff)
  from Cons.prems(1) have ne: "k \<noteq> k'" and notin: "k \<notin> set ks"
    by auto
  from s1 ne have "row_get (fst st1) k = row_get (fst st) k"
    using resolve_column_other [of fetch ext dr cm im "fst st" "snd st" k' "fst st1" "snd st1" k]
    by simp
  with Cons.IH [OF notin s2] show ?case
    by simp
qed

lemma resolve_columns_translated:
  assumes "\<And>row inc row' inc'. row_get row k = v \<Longrightarrow>
             resolve_column fetch ext dr cm im (row, inc) k = Inr (row', inc') \<Longrightarrow> row_get row' k = w"
    and "distinct ks" and "k \<in> set ks" and "row_get (fst st) k = v"
    and "resolve_columns fetch ext dr cm im ks st = Inr st'"
  shows "row_get (fst st') k = w"
  using assms(2-5)
proof (induction ks arbitrary: st)
  case Nil
  then show ?case by simp
next
  case (Cons k' ks)
  from Cons.prems(4) obtain st1 where
    s1: "resolve_column fetch ext dr cm im st k' = Inr st1"
    and s2: "resolve_columns fetch ext dr cm im ks st1 = Inr st'"
    by (auto simp: bindE_Inr_iff)
  show ?case
  proof (cases "k' = k")
    case True
    from s1 True Cons.prems(3) have "row_get (fst st1) k = w"
      using assms(1) [of "fst st" "snd st" "fst st1" "snd st1"] by simp
    moreover from True Cons.prems(1) have "k \<notin> set ks"
      by simp
    ultimately show ?thesis
      using resolve_columns_absent [OF _ s2, of k] by simp
  next
    case False
    with s1 have "row_get (fst st1) k = row_get (fst st) k"
      using resolve_column_other [of fetch ext dr cm im "fst st" "snd st" k' "fst st1" "snd st1" k]
      by simp
    with Cons.prems(3) have v: "row_get (fst st1) k = v"
      by simp
    from False Cons.prems(1,2) have "distinct ks" and "k \<in> set ks"
      by auto
    from Cons.IH [OF this v s2] show ?thesis .
  qed
qed

lemma row_get_key: "row_get row k \<noteq> VNil \<Longrightarrow> k \<in> set (remdups (map fst row))"
  by (auto simp: row_get_def split: option.splits dest: map_of_SomeD intro: rev_image_eqI)

lemma RowsToMap_loop_Some:
  "RowsToMap_loop t (map Some rs) acc = (acc @ map (\<lambda>r. row_set r ''__type'' (VStr t)) rs, None)"
  by (induction rs arbitrary: acc) simp_all

lemma RowsToMap_rows_of:
  "RowsToMap (rows_of rs) t = (map (\<lambda>r. row_set r ''__type'' (VStr t)) rs, None)"
  by (simp add: RowsToMap_def rows_of_def RowsToMap_loop_Some)

lemma RowsToMap_loop_length:
  "RowsToMap_loop t ss acc = (out, None) \<Longrightarrow> length out = length acc + length ss"
proof (induction ss arbitrary: acc)
  case Nil
  then show ?case by simp
next
  case (Cons a ss)
  then show ?case
    by (cases a) auto
qed

lemma resolve_rows_nth:
  assumes "resolve_rows fetch ext dr cm im xs = Inr ys"
  shows "length ys = length xs
       \<and> (\<forall>j<length xs. resolve_row fetch ext dr cm im (xs ! j) = Inr (ys ! j))"
  using assms
proof (induction xs arbitrary: ys)
  case Nil
  then show ?case by simp
next
  case (Cons x xs)
  from Cons.prems obtain y ys' where
    y: "resolve_row fetch ext dr cm im x = Inr y"
    and ys': "resolve_rows fetch ext dr cm im xs = Inr ys'"
    and ys: "ys = y # ys'"
    by (auto simp: bindE_Inr_iff)
  from Cons.IH [OF ys'] y ys show ?case
    by (auto simp: nth_Cons split: nat.splits)
qed

lemma ResultToArrayOfMap_with_length:
  assumes "ResultToArrayOfMap_with fetch ext dr rows cm im = Inr (out, incs, None)"
  shows "length out = length (scans rows) \<and> length incs = length (scans rows)"
proof -
  from assms obtain responseArray rs where
    r: "RowsToMap rows (GetName (model dr)) = (responseArray, None)"
    and rs: "resolve_rows fetch ext dr cm im responseArray = Inr rs"
    and out: "out = map fst rs" "incs = map snd rs"
    by (auto simp: ResultToArrayOfMap_with_def bindE_Inr_iff split: prod.splits option.splits)
  from r have "length responseArray = length (scans rows)"
    using RowsToMap_loop_length [of "GetName (model dr)" "scans rows" "[]" responseArray]
    by (simp add: RowsToMap_def split: if_splits)
  with resolve_rows_nth [OF rs] out show ?thesis
    by simp
qed

lemma ResultToArrayOfMap_with_rows_of:
  assumes "ResultToArrayOfMap_with fetch ext dr (rows_of rs) cm im = Inr (out, incs, err)"
  shows "err = None \<and> length out = length rs \<and> length incs = length rs
       \<and> (\<forall>j<length rs. resolve_row fetch ext dr cm im
               (row_set (rs ! j) ''__type'' (VStr (GetName (model dr)))) = Inr (out ! j, incs ! j))"
proof -
  from assms obtain ys where
    ys: "resolve_rows fetch ext dr cm im (map (\<lambda>r. row_set r ''__type'' (VStr (GetName (model dr)))) rs) = Inr ys"
    and out: "out = map fst ys" "incs = map snd ys" "err = None"
    by (auto simp: ResultToArrayOfMap_with_def RowsToMap_rows_of bindE_Inr_iff)
  from resolve_rows_nth [OF ys] out show ?thesis
    by simp
qed

lemma target_missing_fails:
  assumes "target_missing dr ns n"
  shows "\<exists>e. GetIdToReferenceId dr ns n = ([], Some e)"
  using assms
  by (intro GetIdToReferenceId_missing) (simp add: target_missing_def list_all_iff)

text \<open>
  A target row that is missing when the id is translated.  Let \<open>k\<close> be a foreign-key
  column of data source \<open>self\<close> into the table \<open>ns\<close>, and let a row hold the internal id
  \<open>n\<close>, an \<open>int64\<close>, in it.  When no row of \<open>ns\<close> has id \<open>n\<close> (or \<open>ns\<close> does not exist), the
  translation fails and the step of the column returns the row and its include list as
  they were.  When the translation succeeds and the relation is not included, the step
  overwrites the column with the reference id and leaves the include list alone.  And
  whenever \<open>ResultToArrayOfMap\<close> returns for a batch, it returns as many rows and include
  lists as it was given; the row is at its place, with the column unmodified when the
  translation failed and overwritten with the reference id when it succeeded; and with
  a missing target, the row and its include list are those of the row's other columns
  alone.  What happens when the relation is included and the object load fails after
  the translation succeeded is settled further down.
\<close>

theorem self_foreign_key_missing_target:
  assumes "cm k = Some ci" and "IsForeignKey ci" and "DataSource (ForeignKeyData ci) = ''self''"
    and "Namespace (ForeignKeyData ci) = ns" and "k \<noteq> ''__type''"
  shows "(target_missing dr ns n \<longrightarrow>
            snd (GetIdToReferenceId dr ns n) \<noteq> None
            \<and> (\<forall>row inc. row_get row k = VInt n \<longrightarrow>
                  resolve_column (GetIdToObject ext dr) ext dr cm im (row, inc) k = Inr (row, inc)))
       \<and> (\<forall>ref row inc. row_get row k = VInt n \<and> GetIdToReferenceId dr ns n = (ref, None)
              \<and> \<not> relation_included im ns \<longrightarrow>
              resolve_column (GetIdToObject ext dr) ext dr cm im (row, inc) k
                = Inr (row_set row k (VStr ref), inc))
       \<and> (\<forall>rs out incs err j.
             ResultToArrayOfMap ext dr (rows_of rs) cm im = Inr (out, incs, err)
             \<and> j < length rs \<and> row_get (rs ! j) k = VInt n \<longrightarrow>
             length out = length rs \<and> length incs = length rs
             \<and> (target_missing dr ns n \<longrightarrow>
                  row_get (out ! j) k = VInt n
                  \<and> resolve_columns (GetIdToObject ext dr) ext dr cm im
                        (removeAll k (remdups (map fst (row_set (rs ! j) ''__type'' (VStr (GetName (model dr)))))))
                        (row_set (rs ! j) ''__type'' (VStr (GetName (model dr))), [])
                      = Inr (out ! j, incs ! j))
             \<and> (\<forall>ref. GetIdToReferenceId dr ns n = (ref, None) \<longrightarrow> row_get (out ! j) k = VStr ref)
             \<and> (\<forall>ref e. GetIdToReferenceId dr ns n = (ref, Some e) \<longrightarrow> row_get (out ! j) k = VInt n))"
proof (intro conjI impI allI)
  assume "target_missing dr ns n"
  then obtain e where "GetIdToReferenceId dr ns n = ([], Some e)"
    using target_missing_fails by blast
  then show "snd (GetIdToReferenceId dr ns n) \<noteq> None"
    by simp
next
  fix row inc
  assume "target_missing dr ns n" and v: "row_get row k = VInt n"
  then obtain e where "GetIdToReferenceId dr ns n = ([], Some e)"
    using target_missing_fails by blast
  with assms v show "resolve_column (GetIdToObject ext dr) ext dr cm im (row, inc) k = Inr (row, inc)"
    by (intro resolve_column_self_failed) auto
next
  fix ref row inc
  assume "row_get row k = VInt n \<and> GetIdToReferenceId dr ns n = (ref, None) \<and> \<not> relation_included im ns"
  with assms show "resolve_column (GetIdToObject ext dr) ext dr cm im (row, inc) k
      = Inr (row_set row k (VStr ref), inc)"
    by (simp add: resolve_column_def coerce_datetime_VInt resolve_self_def bindE_def)
next
  fix rs out incs err j
  assume h: "ResultToArrayOfMap ext dr (rows_of rs) cm im = Inr (out, incs, err)
      \<and> j < length rs \<and> row_get (rs ! j) k = VInt n"
  let ?f = "GetIdToObject ext dr"
  let ?x = "row_set (rs ! j) ''__type'' (VStr (GetName (model dr)))"
  from h have res: "ResultToArrayOfMap_with ?f ext dr (rows_of rs) cm im = Inr (out, incs, err)"
    by (simp add: ResultToArrayOfMap_def)
  note b = ResultToArrayOfMap_with_rows_of [OF res]
  from b show "length out = length rs" and "length incs = length rs"
    by simp_all
  from b h have row: "resolve_row ?f ext dr cm im ?x = Inr (out ! j, incs ! j)"
    by simp
  from h assms(5) have x: "row_get ?x k = VInt n"
    by (simp add: row_get_set_other)
  then have key: "k \<in> set (remdups (map fst ?x))"
    by (intro row_get_key) simp
  from x have x': "row_get (fst (?x, [])) k = VInt n"
    by simp
  from row have rc: "resolve_columns ?f ext dr cm im (remdups (map fst ?x)) (?x, []) = Inr (out ! j, incs ! j)"
    by (simp add: resolve_row_def)
  {
    assume "target_missing dr ns n"
    then obtain e where fail: "GetIdToReferenceId dr ns n = ([], Some e)"
      using target_missing_fails by blast
    have skip: "\<And>row inc. row_get row k = VInt n \<Longrightarrow>
        resolve_column ?f ext dr cm im (row, inc) k = Inr (row, inc)"
      using assms fail by (intro resolve_column_self_failed) auto
    from resolve_columns_keeps [OF skip x' rc]
    show "row_get (out ! j) k = VInt n"
      by simp
    from resolve_columns_skip [OF skip x', of "remdups (map fst ?x)"] rc
    show "resolve_columns ?f ext dr cm im (removeAll k (remdups (map fst ?x))) (?x, [])
        = Inr (out ! j, incs ! j)"
      by simp
  }
  {
    fix ref
    assume ok: "GetIdToReferenceId dr ns n = (ref, None)"
    have tr: "\<And>row inc row' inc'. row_get row k = VInt n \<Longrightarrow>
        resolve_column ?f ext dr cm im (row, inc) k = Inr (row', inc') \<Longrightarrow> row_get row' k = VStr ref"
      using assms ok by (intro resolve_column_self_translated) auto
    from resolve_columns_translated [OF tr _ key x' rc]
    show "row_get (out ! j) k = VStr ref"
      by simp
  }
  {
    fix ref e
    assume fail: "GetIdToReferenceId dr ns n = (ref, Some e)"
    have skip: "\<And>row inc. row_get row k = VInt n \<Longrightarrow>
        resolve_column ?f ext dr cm im (row, inc) k = Inr (row, inc)"
      using assms fail by (intro resolve_column_self_failed) auto
    from resolve_columns_keeps [OF skip x' rc]
    show "row_get (out ! j) k = VInt n"
      by simp
  }
qed

lemmas resolver_eval = ResultToArrayOfMap_def ResultToArrayOfMap_with_def RowsToMap_rows_of
  resolve_row_def resolve_column_def resolve_self_def resolve_cloud_store_def coerce_datetime_def
  relation_included_def GetIdToObject_def GetIdToReferenceId_def select_where_def sql_eq_def
  scanString_def row_get_def row_set_def bindE_def assert_string_def
  demo_book_columns_def demo_books_def demo_dr_def demo_db_def demo_user_account_def demo_model_def
  demo_ext_def

lemma demo_books_expanded:
  "ResultToArrayOfMap demo_ext demo_dr (rows_of demo_books) demo_book_columns (Some [''*'' \<mapsto> True])
     = Inr ([[(''id'', VInt 10), (''author_id'', VInt 7), (''__type'', VStr ''world'')],
             [(''id'', VInt 11), (''author_id'', VStr ''u-2''), (''__type'', VStr ''world'')]],
            [[], [[(''id'', VInt 2), (''reference_id'', VStr ''u-2''), (''__type'', VStr ''user_account'')]]],
            None)"
  by (simp add: resolver_eval)

lemma demo_target_missing: "target_missing demo_dr ''user_account'' 7"
  by (simp add: target_missing_def demo_dr_def demo_db_def demo_user_account_def row_get_def)

theorem self_foreign_key_missing_target_witness:
  "target_missing demo_dr ''user_account'' 7
   \<and> resolve_column (GetIdToObject demo_ext demo_dr) demo_ext demo_dr demo_book_columns
        (Some [''*'' \<mapsto> True]) ([(''id'', VInt 10), (''author_id'', VInt 7)], []) ''author_id''
      = Inr ([(''id'', VInt 10), (''author_id'', VInt 7)], [])
   \<and> ResultToArrayOfMap demo_ext demo_dr (rows_of demo_books) demo_book_columns (Some [''*'' \<mapsto> True])
      = Inr ([[(''id'', VInt 10), (''author_id'', VInt 7), (''__type'', VStr ''world'')],
              [(''id'', VInt 11), (''author_id'', VStr ''u-2''), (''__type'', VStr ''world'')]],
             [[], [[(''id'', VInt 2), (''reference_id'', VStr ''u-2''), (''__type'', VStr ''user_account'')]]],
             None)"
proof -
  have cm: "demo_book_columns ''author_id''
      = Some \<lparr>ColumnName = ''author_id'', ColumnType = ''alias'', IsForeignKey = True,
          ForeignKeyData = \<lparr>DataSource = ''self'', Namespace = ''user_account'', KeyName = ''id''\<rparr>\<rparr>"
    by (simp add: demo_book_columns_def)
  have v: "row_get [(''id'', VInt 10), (''author_id'', VInt 7)] ''author_id'' = VInt 7"
    by (simp add: row_get_def)
  note t = self_foreign_key_missing_target [where cm = demo_book_columns and k = "''author_id''"
      and ns = "''user_account''" and dr = demo_dr and n = 7 and ext = demo_ext
      and im = "Some [''*'' \<mapsto> True]", OF cm]
  from t demo_target_missing v demo_books_expanded show ?thesis
    by simp
qed

text \<open>
  Claim C2, at inputs that refute it.  A one-row batch whose \<open>self\<close> foreign-key column
  holds a \<open>float64\<close> makes \<open>ResultToArrayOfMap\<close> panic at \<open>val.(string)\<close>: no row is
  returned.  So does a \<open>cloud_store\<close> column whose JSON list has a descriptor without
  a \<open>name\<close>, at \<open>file["name"].(string)\<close>.
\<close>

theorem ResultToArrayOfMap_float_key_panics:
  "ResultToArrayOfMap demo_ext demo_dr (rows_of [[(''id'', VInt 12), (''author_id'', VFloat 7)]])
     demo_book_columns None = Inl TypeAssertion"
  by (simp add: resolver_eval)

lemma ResultToArrayOfMap_nameless_file_panics:
  "ResultToArrayOfMap demo_ext demo_dr (rows_of [[(''id'', VInt 12), (''cover'', VStr ''[{}]'')]])
     demo_book_columns None = Inl TypeAssertion"
  by (simp add: resolver_eval)

text \<open>
  Whenever \<open>ResultToArrayOfMap\<close> returns without an error, it returns as many rows and
  as many include lists as the query scanned.
\<close>

theorem ResultToArrayOfMap_row_count:
  assumes "ResultToArrayOfMap ext dr rows cm im = Inr (out, incs, None)"
  shows "length out = length (scans rows) \<and> length incs = length (scans rows)"
  using assms unfolding ResultToArrayOfMap_def by (rule ResultToArrayOfMap_with_length)

theorem ResultToArrayOfMap_row_count_witness:
  "length (fst (projr (ResultToArrayOfMap demo_ext demo_dr (rows_of demo_books) demo_book_columns
      (Some [''*'' \<mapsto> True])))) = 2"
  using ResultToArrayOfMap_row_count [OF demo_books_expanded]
  by (simp add: demo_books_expanded)

section \<open>Relation expansion returns on well-typed data\<close>

lemma set_src_total:
  "files_named fs \<Longrightarrow>
     \<exists>fs'. set_src fs = Inr fs' \<and> list_all (\<lambda>f. scanString (row_get f ''src'') \<noteq> None) fs'"
proof (induction fs)
  case Nil
  then show ?case by simp
next
  case (Cons f fs)
  from Cons.prems obtain n where n: "row_get f ''name'' = VStr n"
    by (cases "row_get f ''name''") (simp_all add: files_named_def scanString_def)
  from Cons obtain fs' where "set_src fs = Inr fs'"
    and "list_all (\<lambda>f. scanString (row_get f ''src'') \<noteq> None) fs'"
    by (auto simp: files_named_def)
  with n show ?case
    by (simp add: assert_string_def bindE_def row_get_set_same scanString_def)
qed

lemma hydrate_files_total:
  "list_all (\<lambda>f. scanString (row_get f ''src'') \<noteq> None) fs \<Longrightarrow>
     \<exists>resp'. hydrate_files ext path fs resp = Inr resp'"
proof (induction fs arbitrary: resp)
  case Nil
  then show ?case by simp
next
  case (Cons f fs)
  from Cons.prems obtain p where p: "row_get f ''src'' = VStr p"
    by (cases "row_get f ''src''") (simp_all add: scanString_def)
  from Cons have "\<And>resp. \<exists>resp'. hydrate_files ext path fs resp = Inr resp'"
    by simp
  with p show ?case
    by (simp add: assert_string_def bindE_def split: option.splits)
qed

lemma GetFileFromLocalCloudStore_total:
  "list_all (\<lambda>f. scanString (row_get f ''src'') \<noteq> None) fs \<Longrightarrow>
     \<exists>r. GetFileFromLocalCloudStore ext dr t c fs = Inr r"
  using hydrate_files_total [of fs ext _ "[]"]
  by (auto simp: GetFileFromLocalCloudStore_def bindE_Inr_iff split: option.splits)

lemma resolve_self_total:
  assumes "fetch_ok fetch dr im" and "v = VInt n \<or> v = VStr s"
  shows "\<exists>st'. resolve_self fetch dr im Map.empty ns k v (row, inc) = Inr st'"
proof -
  define i where "i = (case v of VInt n \<Rightarrow> n | VStr s \<Rightarrow> fst (ParseInt s) | _ \<Rightarrow> 0)"
  from assms(2) have conv: "(case v of VInt n \<Rightarrow> Inr n | VStr s \<Rightarrow> Inr (fst (ParseInt s))
      | _ \<Rightarrow> Inl TypeAssertion) = Inr i"
    by (auto simp: i_def)
  obtain ref e where t: "GetIdToReferenceId dr ns i = (ref, e)"
    by (cases "GetIdToReferenceId dr ns i")
  show ?thesis
  proof (cases e)
    case (Some err)
    with t conv show ?thesis
      by (simp add: resolve_self_def bindE_def)
  next
    case None
    show ?thesis
    proof (cases "relation_included im ns")
      case False
      with t None conv show ?thesis
        by (simp add: resolve_self_def bindE_def)
    next
      case True
      with assms(1) t None obtain obj err where "fetch ns i = Inr (Some obj, err)"
        unfolding fetch_ok_def by blast
      with t None True conv show ?thesis
        by (simp add: resolve_self_def bindE_def Let_def)
    qed
  qed
qed

lemma resolve_cloud_store_total:
  assumes "v = VStr s" and "case json_Unmarshal ext s of None \<Rightarrow> True | Some fs \<Rightarrow> files_named fs"
  shows "\<exists>st'. resolve_cloud_store ext dr im ci k v (row, inc) = Inr st'"
proof (cases "json_Unmarshal ext s")
  case None
  with assms(1) show ?thesis
    by (simp add: resolve_cloud_store_def assert_string_def bindE_def)
next
  case (Some fs)
  with assms(2) have "files_named fs"
    by simp
  then obtain fs' where fs': "set_src fs = Inr fs'"
    and src: "list_all (\<lambda>f. scanString (row_get f ''src'') \<noteq> None) fs'"
    using set_src_total by blast
  from src obtain r where "GetFileFromLocalCloudStore ext dr (TableName dr) (ColumnName ci) fs' = Inr r"
    using GetFileFromLocalCloudStore_total by blast
  with assms(1) Some fs' show ?thesis
    by (cases r) (simp add: resolve_cloud_store_def assert_string_def bindE_def Let_def)
qed

lemma resolve_column_total:
  assumes "fetch_ok fetch dr im" and "key_well_typed ext cm row k"
  shows "\<exists>st'. resolve_column fetch ext dr cm im (row, inc) k = Inr st'"
proof (cases "cm k")
  case None
  then show ?thesis
    by (simp add: resolve_column_def)
next
  case (Some ci)
  let ?v = "row_get row k"
  let ?row1 = "coerce_datetime ext ci row k ?v"
  from assms(2) Some have ok: "foreign_value_ok ext ci ?v"
    by (simp add: key_well_typed_def)
  show ?thesis
  proof (cases "\<not> IsForeignKey ci \<or> ?v = VStr [] \<or> ?v = VNil")
    case True
    with Some show ?thesis
      by (auto simp: resolve_column_def Let_def)
  next
    case False
    then have fk: "IsForeignKey ci" "?v \<noteq> VStr []" "?v \<noteq> VNil"
      by simp_all
    show ?thesis
    proof (cases "DataSource (ForeignKeyData ci) = ''self''")
      case True
      with ok fk obtain n s where "?v = VInt n \<or> ?v = VStr s"
        by (cases ?v) (simp_all add: foreign_value_ok_def)
      from resolve_self_total [OF assms(1) this] obtain st' where
        "resolve_self fetch dr im Map.empty (Namespace (ForeignKeyData ci)) k ?v (?row1, inc) = Inr st'"
        by blast
      with Some fk True show ?thesis
        by (simp add: resolve_column_def Let_def)
    next
      case notself: False
      show ?thesis
      proof (cases "DataSource (ForeignKeyData ci) = ''cloud_store''")
        case True
        with ok fk notself obtain s where s: "?v = VStr s"
          and "case json_Unmarshal ext s of None \<Rightarrow> True | Some fs \<Rightarrow> files_named fs"
          by (cases ?v) (simp_all add: foreign_value_ok_def)
        from resolve_cloud_store_total [OF this] obtain st' where
          "resolve_cloud_store ext dr im ci k ?v (?row1, inc) = Inr st'"
          by blast
        with Some fk True show ?thesis
          by (simp add: resolve_column_def Let_def)
      next
        case False
        with Some fk notself show ?thesis
          by (simp add: resolve_column_def Let_def)
      qed
    qed
  qed
qed

lemma resolve_columns_total:
  assumes "fetch_ok fetch dr im"
  shows "distinct ks \<Longrightarrow> \<forall>k\<in>set ks. key_well_typed ext cm (fst st) k \<Longrightarrow>
           \<exists>st'. resolve_columns fetch ext dr cm im ks st = Inr st'"
proof (induction ks arbitrary: st)
  case Nil
  then show ?case by simp
next
  case (Cons k ks)
  obtain row inc where st: "st = (row, inc)"
    by (cases st)
  from Cons.prems st have "key_well_typed ext cm row k"
    by simp
  from resolve_column_total [OF assms this] obtain st1 where
    s1: "resolve_column fetch ext dr cm im (row, inc) k = Inr st1"
    by blast
  obtain row1 inc1 where st1: "st1 = (row1, inc1)"
    by (cases st1)
  have "\<forall>k'\<in>set ks. key_well_typed ext cm (fst st1) k'"
  proof
    fix k'
    assume k': "k' \<in> set ks"
    with Cons.prems(1) have "k' \<noteq> k"
      by auto
    with s1 st1 have "row_get row1 k' = row_get row k'"
      using resolve_column_other [of fetch ext dr cm im row inc k row1 inc1 k'] by simp
    moreover from Cons.prems(2) k' st have "key_well_typed ext cm row k'"
      by simp
    ultimately show "key_well_typed ext cm (fst st1) k'"
      by (simp add: key_well_typed_def st1 split: option.splits)
  qed
  moreover from Cons.prems(1) have "distinct ks"
    by simp
  ultimately obtain st' where "resolve_columns fetch ext dr cm im ks st1 = Inr st'"
    using Cons.IH by blast
  with s1 st show ?case
    by (simp add: bindE_def)
qed

lemma resolve_row_total:
  assumes "fetch_ok fetch dr im" and "row_well_typed ext cm row"
  shows "\<exists>r. resolve_row fetch ext dr cm im row = Inr r"
proof -
  from assms(2) have "\<forall>k\<in>set (remdups (map fst row)). key_well_typed ext cm (fst (row, [])) k"
    by (simp add: row_well_typed_def list_all_iff)
  with resolve_columns_total [OF assms(1), of "remdups (map fst row)" ext cm "(row, [])"]
  show ?thesis
    by (simp add: resolve_row_def)
qed

lemma resolve_rows_total:
  assumes "fetch_ok fetch dr im"
  shows "list_all (row_well_typed ext cm) xs \<Longrightarrow> \<exists>ys. resolve_rows fetch ext dr cm im xs = Inr ys"
proof (induction xs)
  case Nil
  then show ?case by simp
next
  case (Cons x xs)
  then obtain ys where "resolve_rows fetch ext dr cm im xs = Inr ys"
    by auto
  moreover from Cons.prems obtain y where "resolve_row fetch ext dr cm im x = Inr y"
    using resolve_row_total [OF assms, of ext cm x] by auto
  ultimately show ?case
    by (simp add: bindE_def)
qed

lemma ResultToArrayOfMap_with_total:
  assumes "fetch_ok fetch dr im" and "list_all (\<lambda>r. row_well_typed ext cm (scanned dr r)) rs"
  shows "\<exists>out incs. ResultToArrayOfMap_with fetch ext dr (rows_of rs) cm im = Inr (out, incs, None)
           \<and> length out = length rs \<and> length incs = length rs"
proof -
  let ?xs = "map (\<lambda>r. row_set r ''__type'' (VStr (GetName (model dr)))) rs"
  from assms(2) have "list_all (row_well_typed ext cm) ?xs"
    by (simp add: list_all_iff scanned_def)
  from resolve_rows_total [OF assms(1) this] obtain ys where
    ys: "resolve_rows fetch ext dr cm im ?xs = Inr ys"
    by blast
  then have res: "ResultToArrayOfMap_with fetch ext dr (rows_of rs) cm im = Inr (map fst ys, map snd ys, None)"
    by (simp add: ResultToArrayOfMap_with_def RowsToMap_rows_of bindE_def)
  from ResultToArrayOfMap_with_rows_of [OF res] res show ?thesis
    by simp
qed

lemma fetch_ok_None: "fetch_ok fetch dr None"
  by (simp add: fetch_ok_def relation_included_def)

lemma GetIdToObject_fetch_ok:
  assumes "tables_well_typed ext dr"
  shows "fetch_ok (GetIdToObject ext dr) dr im"
  unfolding fetch_ok_def
proof (intro allI impI)
  fix ns n ref
  assume "GetIdToReferenceId dr ns n = (ref, None)"
  then obtain rs r rest where rs: "db dr ns = Some rs"
    and sel: "select_where dr ns ''id'' (VInt n) = Some (r # rest)"
    by (auto simp: GetIdToReferenceId_def select_where_def split: option.splits list.splits)
  from assms rs obtain crud where crud: "map_of (Cruds dr) ns = Some crud"
    and wt: "list_all (\<lambda>r. row_well_typed ext (GetColumnMap crud) (scanned dr r)) rs"
    unfolding tables_well_typed_def by blast
  from sel rs have "r # rest = filter (\<lambda>r. sql_eq (row_get r ''id'') (VInt n)) rs"
    by (simp add: select_where_def)
  then have "set (r # rest) \<subseteq> set rs"
    by (metis filter_is_subset)
  with wt have "list_all (\<lambda>r. row_well_typed ext (GetColumnMap crud) (scanned dr r)) (r # rest)"
    unfolding list_all_iff by blast
  from ResultToArrayOfMap_with_total [OF fetch_ok_None this, of "\<lambda>_ _. Inr (None, None)"]
  obtain out incs where
    "ResultToArrayOfMap_with (\<lambda>_ _. Inr (None, None)) ext dr (rows_of (r # rest)) (GetColumnMap crud) None
       = Inr (out, incs, None)" and "length out = length (r # rest)"
    by blast
  with sel crud show "\<exists>obj err. GetIdToObject ext dr ns n = Inr (Some obj, err)"
    by (auto simp: GetIdToObject_def bindE_def)
qed

text \<open>
  On well-typed data relation expansion always returns, with as many rows and include
  lists as the query produced, whatever the include map and however many foreign keys
  fail to resolve (a target that is missing, an id that does not parse, a JSON text
  that does not decode, a file that cannot be read, an unknown data source).
\<close>

theorem ResultToArrayOfMap_well_typed_total:
  assumes "tables_well_typed ext dr" and "list_all (\<lambda>r. row_well_typed ext cm (scanned dr r)) rs"
  shows "\<exists>out incs. ResultToArrayOfMap ext dr (rows_of rs) cm im = Inr (out, incs, None)
           \<and> length out = length rs \<and> length incs = length rs"
  unfolding ResultToArrayOfMap_def
  using GetIdToObject_fetch_ok [OF assms(1)] assms(2) by (rule ResultToArrayOfMap_with_total)

lemma demo_library_well_typed: "tables_well_typed demo_ext demo_library"
  by (auto simp: tables_well_typed_def demo_library_def demo_books_def demo_user_account_def
      demo_model_def demo_book_columns_def row_well_typed_def key_well_typed_def scanned_def
      foreign_value_ok_def row_get_def row_set_def split: if_splits)

lemma demo_batch_well_typed:
  "list_all (\<lambda>r. row_well_typed demo_ext demo_book_columns (scanned demo_library r)) demo_batch"
  by (simp add: demo_batch_def row_well_typed_def key_well_typed_def scanned_def demo_library_def
      demo_model_def demo_book_columns_def foreign_value_ok_def row_get_def row_set_def demo_ext_def)

theorem ResultToArrayOfMap_well_typed_total_witness:
  "\<exists>out incs. ResultToArrayOfMap demo_ext demo_library (rows_of demo_batch) demo_book_columns
       (Some [''*'' \<mapsto> True]) = Inr (out, incs, None)
     \<and> length out = 3 \<and> length incs = 3"
  using ResultToArrayOfMap_well_typed_total [OF demo_library_well_typed demo_batch_well_typed,
      of "Some [''*'' \<mapsto> True]"]
  by (simp add: demo_batch_def numeral_3_eq_3)

text \<open>
  The object load after a translation that succeeded.  When the loader returns no
  object, with or without an error, the write of \<open>obj["__type"]\<close>, which comes before
  the test of the error, is a write to a \<open>nil\<close> map: the step of the column panics.
\<close>

lemma resolve_self_nil_object:
  assumes "GetIdToReferenceId dr ns n = (ref, None)" and "relation_included im ns"
    and "fetch ns n = Inr (None, e)"
  shows "resolve_self fetch dr im Map.empty ns k (VInt n) (row, inc) = Inl NilMapWrite"
  using assms by (simp add: resolve_self_def bindE_def)

lemma ParseInt_2: "ParseInt ''2'' = (2, None)"
  by (simp add: ParseInt_def ParseUint_def is_digit_def digit_val_def)

lemmas library_eval = ResultToArrayOfMap_def ResultToArrayOfMap_with_def RowsToMap_rows_of
  resolve_row_def resolve_column_def resolve_self_def resolve_cloud_store_def coerce_datetime_def
  relation_included_def GetIdToObject_def GetIdToReferenceId_def select_where_def sql_eq_def
  scanString_def row_get_def row_set_def bindE_def assert_string_def
  demo_book_columns_def demo_books_def demo_library_def demo_library_after_def demo_user_account_def
  demo_model_def demo_ext_def

text \<open>
  Claim C7, at the input that refutes it.  The book 11 of \<open>demo_library\<close> has the author
  2, a foreign key of data source \<open>self\<close> into \<open>user_account\<close>, and every relation is
  included.  The translation of the id 2 succeeds, with the reference id \<open>u-2\<close>.  The
  user 2 is then deleted, before the object is loaded: the loader, on
  \<open>demo_library_after\<close>, finds no row and returns \<open>nil\<close>.  The batch is not returned with
  the column translated and the object left out of the include list: the write to
  the \<open>nil\<close> map panics, and the whole batch is lost, the book 10 with it.  The same
  holds when the id is stored as the string \<open>2\<close>.
\<close>

theorem ResultToArrayOfMap_deleted_target_panics:
  "GetIdToReferenceId demo_library ''user_account'' 2 = (''u-2'', None)
   \<and> GetIdToObject demo_ext demo_library_after ''user_account'' 2 = Inr (None, None)
   \<and> ResultToArrayOfMap_with (GetIdToObject demo_ext demo_library_after) demo_ext demo_library
        (rows_of demo_books) demo_book_columns (Some [''*'' \<mapsto> True])
      = Inl NilMapWrite
   \<and> ResultToArrayOfMap_with (GetIdToObject demo_ext demo_library_after) demo_ext demo_library
        (rows_of [[(''id'', VInt 11), (''author_id'', VStr ''2'')]]) demo_book_columns
        (Some [''*'' \<mapsto> True])
      = Inl NilMapWrite"
  by (simp add: library_eval ParseInt_2)

text \<open>
  With the user 2 still stored when the object is loaded, the same batch is returned:
  the book 10, whose author 7 is not stored, unmodified and with nothing included, the
  book 11 with the reference id and the object of its author.
\<close>

lemma ResultToArrayOfMap_stored_target:
  "ResultToArrayOfMap demo_ext demo_library (rows_of demo_books) demo_book_columns
     (Some [''*'' \<mapsto> True])
   = Inr ([[(''id'', VInt 10), (''author_id'', VInt 7), (''__type'', VStr ''book'')],
           [(''id'', VInt 11), (''author_id'', VStr ''u-2''), (''__type'', VStr ''book'')]],
          [[], [[(''id'', VInt 2), (''reference_id'', VStr ''u-2''), (''__type'', VStr ''user_account'')]]],
          None)"
  by (simp add: library_eval)

section \<open>The administrator is made once\<close>

lemma frame_update_refl: "frame_update d d"
  unfolding frame_update_def
  by (intro conjI allI exI [of _ "\<lambda>r. r"]) (simp_all add: option.map_ident)

lemma frame_update_trans:
  assumes "frame_update d d'" and "frame_update d' d''"
  shows "frame_update d d''"
  unfolding frame_update_def
proof (intro conjI allI)
  from assms show "d'' USER_GROUP_JOIN_TABLE = d USER_GROUP_JOIN_TABLE"
    by (simp add: frame_update_def)
next
  fix t
  from assms(1) obtain F where
    F: "\<forall>r c. c \<noteq> USER_ACCOUNT_ID_COLUMN \<and> c \<noteq> ''permission'' \<and> c \<noteq> ''default_permission''
          \<longrightarrow> row_get (F r) c = row_get r c"
    and dF: "d' t = map_option (map F) (d t)"
    unfolding frame_update_def by blast
  from assms(2) obtain G where
    G: "\<forall>r c. c \<noteq> USER_ACCOUNT_ID_COLUMN \<and> c \<noteq> ''permission'' \<and> c \<noteq> ''default_permission''
          \<longrightarrow> row_get (G r) c = row_get r c"
    and dG: "d'' t = map_option (map G) (d' t)"
    unfolding frame_update_def by blast
  from dF dG have "d'' t = map_option (map (G \<circ> F)) (d t)"
    by (simp add: option.map_comp o_def)
  moreover from F G have "\<forall>r c. c \<noteq> USER_ACCOUNT_ID_COLUMN \<and> c \<noteq> ''permission'' \<and> c \<noteq> ''default_permission''
          \<longrightarrow> row_get ((G \<circ> F) r) c = row_get r c"
    by simp
  ultimately show "\<exists>F. (\<forall>r c. c \<noteq> USER_ACCOUNT_ID_COLUMN \<and> c \<noteq> ''permission'' \<and> c \<noteq> ''default_permission''
          \<longrightarrow> row_get (F r) c = row_get r c) \<and> d'' t = map_option (map F) (d t)"
    by (intro exI [of _ "G \<circ> F"] conjI)
qed

lemma set_columns_other:
  "c \<notin> fst ` set sets \<Longrightarrow> row_get (set_columns sets r) c = row_get r c"
proof (induction sets arbitrary: r)
  case Nil
  then show ?case by (simp add: set_columns_def)
next
  case (Cons kv sets)
  obtain k v where kv: "kv = (k, v)"
    by (cases kv)
  from Cons.prems kv have "c \<noteq> k" and "c \<notin> fst ` set sets"
    by auto
  with Cons.IH [of "row_set r k v"] kv show ?case
    by (simp add: set_columns_def row_get_set_other)
qed

lemma exec_update_frame:
  assumes "t \<noteq> USER_GROUP_JOIN_TABLE"
    and "fst ` set sets \<subseteq> {USER_ACCOUNT_ID_COLUMN, ''permission'', ''default_permission''}"
  shows "frame_update d (exec_update d t sets p)"
  unfolding frame_update_def
proof (intro conjI allI)
  from assms(1) show "exec_update d t sets p USER_GROUP_JOIN_TABLE = d USER_GROUP_JOIN_TABLE"
    by (simp add: exec_update_def split: option.splits)
next
  fix t'
  let ?F = "\<lambda>r. if p r then set_columns sets r else r"
  have pres: "\<forall>r c. c \<noteq> USER_ACCOUNT_ID_COLUMN \<and> c \<noteq> ''permission'' \<and> c \<noteq> ''default_permission''
          \<longrightarrow> row_get (?F r) c = row_get r c"
  proof (intro allI impI)
    fix r c
    assume "c \<noteq> USER_ACCOUNT_ID_COLUMN \<and> c \<noteq> ''permission'' \<and> c \<noteq> ''default_permission''"
    with assms(2) have "c \<notin> fst ` set sets"
      by blast
    then show "row_get (?F r) c = row_get r c"
      by (simp add: set_columns_other)
  qed
  show "\<exists>F. (\<forall>r c. c \<noteq> USER_ACCOUNT_ID_COLUMN \<and> c \<noteq> ''permission'' \<and> c \<noteq> ''default_permission''
          \<longrightarrow> row_get (F r) c = row_get r c) \<and> exec_update d t sets p t' = map_option (map F) (d t')"
  proof (cases "t' = t \<and> d t \<noteq> None")
    case True
    then have "exec_update d t sets p t' = map_option (map ?F) (d t')"
      by (auto simp: exec_update_def)
    with pres show ?thesis
      by (intro exI [of _ ?F] conjI)
  next
    case False
    then have "exec_update d t sets p t' = map_option (map (\<lambda>r. r)) (d t')"
      by (auto simp: exec_update_def option.map_ident split: option.splits)
    then show ?thesis
      by (intro exI [of _ "\<lambda>r. r"] conjI) simp_all
  qed
qed

lemma promote_table_frame: "frame_update d (promote_table a userId d crud)"
  by (simp add: promote_table_def frame_update_refl exec_update_frame)

lemma promote_tables_frame: "frame_update d (foldl (promote_table a userId) d cruds)"
proof (induction cruds arbitrary: d)
  case Nil
  show ?case by (simp add: frame_update_refl)
next
  case (Cons crud cruds)
  from promote_table_frame Cons.IH show ?case
    by (simp, rule frame_update_trans)
qed

lemma membership_holders_map:
  assumes "\<And>r. row_get (G r) ''name'' = row_get r ''name''"
    and "\<And>r. row_get (G r) ''id'' = row_get r ''id''"
    and "\<And>r. row_get (U r) ''id'' = row_get r ''id''"
    and "\<And>r. row_get (U r) ''reference_id'' = row_get r ''reference_id''"
  shows "membership_holders ms (map G gs) (map U us) = membership_holders ms gs us"
  by (simp add: membership_holders_def assms o_def cong: if_cong)

lemma admin_holders_frame:
  assumes "frame_update d d'"
  shows "admin_holders d' = admin_holders d"
proof -
  from assms have j: "d' USER_GROUP_JOIN_TABLE = d USER_GROUP_JOIN_TABLE"
    by (simp add: frame_update_def)
  from assms obtain G where
    G: "\<forall>r c. c \<noteq> USER_ACCOUNT_ID_COLUMN \<and> c \<noteq> ''permission'' \<and> c \<noteq> ''default_permission''
          \<longrightarrow> row_get (G r) c = row_get r c"
    and dG: "d' ''usergroup'' = map_option (map G) (d ''usergroup'')"
    unfolding frame_update_def by blast
  from assms obtain U where
    U: "\<forall>r c. c \<noteq> USER_ACCOUNT_ID_COLUMN \<and> c \<noteq> ''permission'' \<and> c \<noteq> ''default_permission''
          \<longrightarrow> row_get (U r) c = row_get r c"
    and dU: "d' USER_ACCOUNT_TABLE_NAME = map_option (map U) (d USER_ACCOUNT_TABLE_NAME)"
    unfolding frame_update_def by blast
  have g1: "\<And>r. row_get (G r) ''name'' = row_get r ''name''"
    and g2: "\<And>r. row_get (G r) ''id'' = row_get r ''id''"
    using G by simp_all
  have u1: "\<And>r. row_get (U r) ''id'' = row_get r ''id''"
    and u2: "\<And>r. row_get (U r) ''reference_id'' = row_get r ''reference_id''"
    using U by simp_all
  show ?thesis
    unfolding admin_holders_def j dG dU
    by (simp add: membership_holders_map [of G U, OF g1 g2 u1 u2] split: option.splits)
qed

lemma UserGroupNameToId_frame:
  assumes "frame_update (db dr) d'"
  shows "UserGroupNameToId (dr\<lparr>db := d'\<rparr>) n = UserGroupNameToId dr n"
proof -
  from assms obtain G where
    G: "\<forall>r c. c \<noteq> USER_ACCOUNT_ID_COLUMN \<and> c \<noteq> ''permission'' \<and> c \<noteq> ''default_permission''
          \<longrightarrow> row_get (G r) c = row_get r c"
    and dG: "d' ''usergroup'' = map_option (map G) (db dr ''usergroup'')"
    unfolding frame_update_def by blast
  have g1: "\<And>r. row_get (G r) ''name'' = row_get r ''name''"
    and g2: "\<And>r. row_get (G r) ''id'' = row_get r ''id''"
    using G by simp_all
  show ?thesis
  proof (cases "db dr ''usergroup''")
    case None
    with dG show ?thesis
      by (simp add: UserGroupNameToId_def select_where_def)
  next
    case (Some gs)
    have "filter (\<lambda>r. sql_eq (row_get r ''name'') (VStr n)) (map G gs)
        = map G (filter (\<lambda>r. sql_eq (row_get r ''name'') (VStr n)) gs)"
      by (simp add: filter_map o_def g1)
    with Some dG show ?thesis
      by (cases "filter (\<lambda>r. sql_eq (row_get r ''name'') (VStr n)) gs")
        (simp_all add: UserGroupNameToId_def select_where_def g2)
  qed
qed

lemma membership_holders_append:
  "membership_holders (ms @ ms') gs us = membership_holders ms gs us @ membership_holders ms' gs us"
  by (simp add: membership_holders_def)

lemma membership_holders_nonempty: "ref \<in> set (membership_holders ms gs us) \<Longrightarrow> ref \<noteq> []"
  by (auto simp: membership_holders_def split: if_splits)

lemma membership_holders_member:
  assumes "m \<in> set ms" and "g \<in> set gs" and "u \<in> set us"
    and "row_get g ''name'' = VStr ''administrators''"
    and "row_get m ''usergroup_id'' = VInt gid" and "row_get g ''id'' = VInt gid"
    and "row_get m USER_ACCOUNT_ID_COLUMN = VInt userId" and "row_get u ''id'' = VInt userId"
    and "row_get u ''reference_id'' = VStr ref" and "ref \<noteq> []"
  shows "ref \<in> set (membership_holders ms gs us)"
  using assms
  by (force simp: membership_holders_def sql_eq_def scanString_def)

lemma GetAdminReferenceId_empty_iff: "GetAdminReferenceId dr = [] \<longleftrightarrow> admin_holders (db dr) = []"
proof (cases "admin_holders (db dr)")
  case Nil
  then show ?thesis
    by (simp add: GetAdminReferenceId_def)
next
  case (Cons ref refs)
  then have "ref \<in> set (admin_holders (db dr))"
    by simp
  then have "ref \<noteq> []"
    by (auto simp: admin_holders_def split: option.splits dest: membership_holders_nonempty)
  with Cons show ?thesis
    by (simp add: GetAdminReferenceId_def)
qed

lemma CanBecomeAdmin_iff: "CanBecomeAdmin dr \<longleftrightarrow> admin_holders (db dr) = []"
  by (simp add: CanBecomeAdmin_def Let_def GetAdminReferenceId_empty_iff)

lemma exec_insert_frame:
  assumes "frame_update d d'"
  shows "frame_update (exec_insert d USER_GROUP_JOIN_TABLE r) (exec_insert d' USER_GROUP_JOIN_TABLE r)"
  unfolding frame_update_def
proof (intro conjI allI)
  from assms have j: "d' USER_GROUP_JOIN_TABLE = d USER_GROUP_JOIN_TABLE"
    by (simp add: frame_update_def)
  then show "exec_insert d' USER_GROUP_JOIN_TABLE r USER_GROUP_JOIN_TABLE
      = exec_insert d USER_GROUP_JOIN_TABLE r USER_GROUP_JOIN_TABLE"
    by (simp add: exec_insert_def split: option.splits)
  fix t
  show "\<exists>F. (\<forall>r c. c \<noteq> USER_ACCOUNT_ID_COLUMN \<and> c \<noteq> ''permission'' \<and> c \<noteq> ''default_permission''
          \<longrightarrow> row_get (F r) c = row_get r c)
        \<and> exec_insert d' USER_GROUP_JOIN_TABLE r t = map_option (map F) (exec_insert d USER_GROUP_JOIN_TABLE r t)"
  proof (cases "t = USER_GROUP_JOIN_TABLE")
    case True
    with j show ?thesis
      by (intro exI [of _ "\<lambda>r. r"]) (simp add: exec_insert_def option.map_ident split: option.splits)
  next
    case False
    from assms obtain F where
      F: "\<forall>r c. c \<noteq> USER_ACCOUNT_ID_COLUMN \<and> c \<noteq> ''permission'' \<and> c \<noteq> ''default_permission''
            \<longrightarrow> row_get (F r) c = row_get r c"
      and dF: "d' t = map_option (map F) (d t)"
      unfolding frame_update_def by blast
    from False dF have "exec_insert d' USER_GROUP_JOIN_TABLE r t
        = map_option (map F) (exec_insert d USER_GROUP_JOIN_TABLE r t)"
      by (simp add: exec_insert_def split: option.splits)
    with F show ?thesis
      by (intro exI [of _ F] conjI)
  qed
qed

lemma UserGroupNameToId_found:
  assumes "UserGroupNameToId dr n = (gid, None)"
  shows "\<exists>gs g. db dr ''usergroup'' = Some gs \<and> g \<in> set gs \<and> row_get g ''name'' = VStr n
           \<and> row_get g ''id'' = VInt gid"
proof -
  from assms obtain gs where gs: "db dr ''usergroup'' = Some gs"
    by (cases "db dr ''usergroup''") (auto simp: UserGroupNameToId_def select_where_def)
  let ?xs = "filter (\<lambda>r. sql_eq (row_get r ''name'') (VStr n)) gs"
  from assms gs obtain g rest where xs: "?xs = g # rest"
    by (cases ?xs) (auto simp: UserGroupNameToId_def select_where_def)
  then have "g \<in> set ?xs"
    by simp
  then have g: "g \<in> set gs" "row_get g ''name'' = VStr n"
    by (auto simp: sql_eq_def)
  from assms gs xs have "scanUint64 (row_get g ''id'') = Some gid"
    by (auto simp: UserGroupNameToId_def select_where_def split: option.splits)
  then have "row_get g ''id'' = VInt gid"
    by (cases "row_get g ''id''") (auto simp: scanUint64_def split: if_splits)
  with gs g show ?thesis
    by blast
qed

lemma BecomeAdmin_refused: "\<not> CanBecomeAdmin dr \<Longrightarrow> BecomeAdmin a rid dr userId = (False, dr)"
  by (simp add: BecomeAdmin_def)

lemma BecomeAdmin_calls_refused: "\<not> CanBecomeAdmin dr \<Longrightarrow> BecomeAdmin_calls a dr calls = dr"
  by (induction calls) (auto simp: BecomeAdmin_refused)

lemma BecomeAdmin_holders:
  assumes "CanBecomeAdmin dr"
  shows "fst (BecomeAdmin a rid dr userId)
       \<and> admin_holders (db (snd (BecomeAdmin a rid dr userId)))
           = admin_holders (exec_insert (db dr) USER_GROUP_JOIN_TABLE
               [(USER_ACCOUNT_ID_COLUMN, VInt userId),
                (''usergroup_id'', VInt (fst (UserGroupNameToId dr ''administrators''))),
                (''permission'', VInt (DEFAULT_PERMISSION a)), (''reference_id'', VStr rid)])"
proof -
  define d1 where "d1 = foldl (promote_table a userId) (db dr) (map snd (Cruds dr))"
  define gid where "gid = fst (UserGroupNameToId dr ''administrators'')"
  define new where "new = [(USER_ACCOUNT_ID_COLUMN, VInt userId), (''usergroup_id'', VInt gid),
      (''permission'', VInt (DEFAULT_PERMISSION a)), (''reference_id'', VStr rid)]"
  define d2 where "d2 = exec_insert d1 USER_GROUP_JOIN_TABLE new"
  have f1: "frame_update (db dr) d1"
    unfolding d1_def by (rule promote_tables_frame)
  then have gid1: "fst (UserGroupNameToId (dr\<lparr>db := d1\<rparr>) ''administrators'') = gid"
    by (simp add: gid_def UserGroupNameToId_frame)
  obtain d6 where res: "BecomeAdmin a rid dr userId = (True, dr\<lparr>db := d6\<rparr>)"
    and f2: "frame_update d2 d6"
  proof -
    let ?d3 = "exec_update d2 ''world''
        [(''permission'', VInt (DEFAULT_PERMISSION a)), (''default_permission'', VInt (DEFAULT_PERMISSION a))]
        (\<lambda>r. not_like_audit (row_get r ''table_name''))"
    let ?d4 = "exec_update ?d3 ''world''
        [(''permission'', VInt (GuestCreate a OR UserCreate a OR GroupCreate a)),
         (''default_permission'', VInt (GuestRead a OR UserRead a OR GroupRead a))]
        (\<lambda>r. like_audit (row_get r ''table_name''))"
    let ?d5 = "exec_update ?d4 ''action''
        [(''permission'', VInt (UserRead a OR UserExecute a OR GroupCRUD a OR GroupExecute a OR GroupRefer a))]
        (\<lambda>r. True)"
    let ?d6 = "exec_update ?d5 ''action''
        [(''permission'', VInt (GuestPeek a OR GuestExecute a OR UserRead a OR UserExecute a OR GroupRead a
            OR GroupExecute a))]
        (\<lambda>r. sql_eq (row_get r ''action_name'') (VStr ''signin''))"
    have "frame_update d2 ?d3"
      by (rule exec_update_frame) simp_all
    moreover have "frame_update ?d3 ?d4"
      by (rule exec_update_frame) simp_all
    moreover have "frame_update ?d4 ?d5"
      by (rule exec_update_frame) simp_all
    moreover have "frame_update ?d5 ?d6"
      by (rule exec_update_frame) simp_all
    ultimately have "frame_update d2 ?d6"
      by (blast intro: frame_update_trans)
    moreover from assms(1) have "BecomeAdmin a rid dr userId = (True, dr\<lparr>db := ?d6\<rparr>)"
      by (simp add: BecomeAdmin_def Let_def gid1 [unfolded d1_def] d2_def new_def d1_def)
    ultimately show ?thesis
      using that by blast
  qed
  from f1 have "frame_update (exec_insert (db dr) USER_GROUP_JOIN_TABLE new) d2"
    unfolding d2_def by (rule exec_insert_frame)
  with f2 have "frame_update (exec_insert (db dr) USER_GROUP_JOIN_TABLE new) d6"
    by (rule frame_update_trans [rotated])
  then have "admin_holders d6 = admin_holders (exec_insert (db dr) USER_GROUP_JOIN_TABLE new)"
    by (rule admin_holders_frame)
  with res show ?thesis
    by (simp add: new_def gid_def)
qed

lemma BecomeAdmin_promotes:
  assumes "CanBecomeAdmin dr" and "promotable dr userId"
  shows "fst (BecomeAdmin a rid dr userId) \<and> \<not> CanBecomeAdmin (snd (BecomeAdmin a rid dr userId))"
proof -
  define gid where "gid = fst (UserGroupNameToId dr ''administrators'')"
  define new where "new = [(USER_ACCOUNT_ID_COLUMN, VInt userId), (''usergroup_id'', VInt gid),
      (''permission'', VInt (DEFAULT_PERMISSION a)), (''reference_id'', VStr rid)]"
  from BecomeAdmin_holders [OF assms(1), of a rid userId]
  have res: "fst (BecomeAdmin a rid dr userId)"
    and h: "admin_holders (db (snd (BecomeAdmin a rid dr userId)))
        = admin_holders (exec_insert (db dr) USER_GROUP_JOIN_TABLE new)"
    by (simp_all add: new_def gid_def)
  from assms(2) obtain ms where ms: "db dr USER_GROUP_JOIN_TABLE = Some ms"
    by (auto simp: promotable_def)
  from assms(2) have "UserGroupNameToId dr ''administrators'' = (gid, None)"
    by (simp add: promotable_def gid_def prod_eq_iff)
  then obtain gs g where gs: "db dr ''usergroup'' = Some gs" and g: "g \<in> set gs"
    "row_get g ''name'' = VStr ''administrators''" "row_get g ''id'' = VInt gid"
    using UserGroupNameToId_found by blast
  from assms(2) obtain us u where us: "db dr USER_ACCOUNT_TABLE_NAME = Some us" and u0: "u \<in> set us"
    "row_get u ''id'' = VInt userId"
    "(case row_get u ''reference_id'' of VStr s \<Rightarrow> s \<noteq> [] | _ \<Rightarrow> False)"
    by (auto simp: promotable_def list_ex_iff split: option.splits)
  from u0(3) obtain ref where "row_get u ''reference_id'' = VStr ref" "ref \<noteq> []"
    by (cases "row_get u ''reference_id''") simp_all
  with u0 have u: "u \<in> set us" "row_get u ''id'' = VInt userId"
    "row_get u ''reference_id'' = VStr ref" "ref \<noteq> []"
    by simp_all
  have "ref \<in> set (membership_holders (ms @ [new]) gs us)"
    using g u by (intro membership_holders_member [of new _ g _ u _ gid userId])
      (simp_all add: new_def row_get_def)
  moreover from ms gs us have "admin_holders (exec_insert (db dr) USER_GROUP_JOIN_TABLE new)
      = membership_holders (ms @ [new]) gs us"
    by (simp add: admin_holders_def exec_insert_def)
  ultimately have "admin_holders (db (snd (BecomeAdmin a rid dr userId))) \<noteq> []"
    using h by auto
  with res show ?thesis
    by (simp add: CanBecomeAdmin_iff)
qed

text \<open>
  Claim C6, with the condition it needs.  \<open>CanBecomeAdmin\<close> is true exactly while no
  user holds the \<open>administrators\<close> group.  Called while it is false, \<open>BecomeAdmin\<close>
  returns false and leaves the database as it was, so that the state in which an
  administrator exists is never left.  Called while it is true, \<open>BecomeAdmin\<close> returns
  true, whatever its statements did.  If moreover the user can be promoted in the
  dataset (\<open>promotable\<close>: the association table exists, the group \<open>administrators\<close> is
  found, and the user is stored with a reference id that is not empty), then from that
  call on \<open>CanBecomeAdmin\<close> is false: every later call of \<open>BecomeAdmin\<close>, for any user,
  returns false and changes nothing, whatever the number of calls.
\<close>

theorem become_admin_once:
  "(CanBecomeAdmin dr \<longleftrightarrow> admin_holders (db dr) = [])
   \<and> (\<not> CanBecomeAdmin dr \<longrightarrow>
        BecomeAdmin a rid dr userId = (False, dr)
        \<and> (\<forall>calls. BecomeAdmin_calls a dr calls = dr))
   \<and> (CanBecomeAdmin dr \<longrightarrow> fst (BecomeAdmin a rid dr userId))
   \<and> (CanBecomeAdmin dr \<and> promotable dr userId \<longrightarrow>
        fst (BecomeAdmin a rid dr userId)
        \<and> \<not> CanBecomeAdmin (snd (BecomeAdmin a rid dr userId))
        \<and> (\<forall>calls. BecomeAdmin_calls a (snd (BecomeAdmin a rid dr userId)) calls
                      = snd (BecomeAdmin a rid dr userId))
        \<and> (\<forall>rid' userId'.
              BecomeAdmin a rid' (snd (BecomeAdmin a rid dr userId)) userId'
                = (False, snd (BecomeAdmin a rid dr userId))))"
  using BecomeAdmin_promotes [of dr userId a rid] BecomeAdmin_holders [of dr a rid userId]
  by (simp add: CanBecomeAdmin_iff [symmetric] BecomeAdmin_refused BecomeAdmin_calls_refused)

lemma demo_CanBecomeAdmin: "CanBecomeAdmin demo_dr"
  by (simp add: CanBecomeAdmin_def GetAdminReferenceId_def admin_holders_def demo_dr_def demo_db_def
      membership_holders_def)

lemma demo_promotable: "promotable demo_dr 1"
  by (simp add: promotable_def UserGroupNameToId_def select_where_def demo_dr_def demo_db_def
      demo_usergroup_def demo_user_account_def row_get_def sql_eq_def scanUint64_def)

theorem become_admin_once_witness:
  "CanBecomeAdmin demo_dr
   \<and> fst (BecomeAdmin demo_auth ''r-1'' demo_dr 1)
   \<and> \<not> CanBecomeAdmin (snd (BecomeAdmin demo_auth ''r-1'' demo_dr 1))
   \<and> BecomeAdmin demo_auth ''r-2'' (snd (BecomeAdmin demo_auth ''r-1'' demo_dr 1)) 2
       = (False, snd (BecomeAdmin demo_auth ''r-1'' demo_dr 1))
   \<and> BecomeAdmin_calls demo_auth (snd (BecomeAdmin demo_auth ''r-1'' demo_dr 1)) [(''r-2'', 2), (''r-3'', 1)]
       = snd (BecomeAdmin demo_auth ''r-1'' demo_dr 1)"
  using become_admin_once [of demo_dr demo_auth "''r-1''" 1] demo_CanBecomeAdmin demo_promotable
  by simp

text \<open>
  The condition is needed.  \<open>demo_dr\<close> stores the users 1 and 2 and no administrator.
  \<open>BecomeAdmin\<close> for the user id 99, which it does not store, returns true: the
  membership row it inserts names no stored user, so that no user holds the
  \<open>administrators\<close> group afterwards, \<open>CanBecomeAdmin\<close> is still true after this call
  that returned true, and a second call returns true again.
\<close>

lemma demo_unstored_holders:
  "admin_holders (exec_insert (db demo_dr) USER_GROUP_JOIN_TABLE
      [(USER_ACCOUNT_ID_COLUMN, VInt 99),
       (''usergroup_id'', VInt (fst (UserGroupNameToId demo_dr ''administrators''))),
       (''permission'', VInt (DEFAULT_PERMISSION demo_auth)), (''reference_id'', VStr ''r-1'')]) = []"
  by (simp add: admin_holders_def exec_insert_def demo_dr_def demo_db_def membership_holders_def
      demo_usergroup_def demo_user_account_def UserGroupNameToId_def select_where_def row_get_def
      sql_eq_def scanUint64_def)

theorem become_admin_unstored_user:
  "CanBecomeAdmin demo_dr
   \<and> fst (BecomeAdmin demo_auth ''r-1'' demo_dr 99)
   \<and> CanBecomeAdmin (snd (BecomeAdmin demo_auth ''r-1'' demo_dr 99))
   \<and> fst (BecomeAdmin demo_auth ''r-2'' (snd (BecomeAdmin demo_auth ''r-1'' demo_dr 99)) 99)"
proof -
  from BecomeAdmin_holders [OF demo_CanBecomeAdmin, of demo_auth "''r-1''" 99]
  have a: "fst (BecomeAdmin demo_auth ''r-1'' demo_dr 99)"
    and b: "admin_holders (db (snd (BecomeAdmin demo_auth ''r-1'' demo_dr 99))) = []"
    by (simp_all add: demo_unstored_holders)
  from b have c: "CanBecomeAdmin (snd (BecomeAdmin demo_auth ''r-1'' demo_dr 99))"
    by (simp add: CanBecomeAdmin_iff)
  from BecomeAdmin_holders [OF c, of demo_auth "''r-2''" 99]
  have "fst (BecomeAdmin demo_auth ''r-2'' (snd (BecomeAdmin demo_auth ''r-1'' demo_dr 99)) 99)"
    by simp
  with a c demo_CanBecomeAdmin show ?thesis
    by simp
qed

end
